theory Spec2Isabelle
  imports Main "HOL-Library.Sublist"
begin

section \<open>String primitives of the host language\<close>

text \<open>
  Strings are character lists. The generator only inspects and produces ASCII text
  (identifiers, SQL keywords, decimal numbers), so a character of the model stands for
  one code unit of the source string.
\<close>

definition nl :: string where
  "nl = [CHR 0x0A]"

definition sq :: string where
  "sq = [CHR 0x27]"

definition dq :: string where
  "dq = [CHR 0x22]"

definition bt :: string where
  "bt = [CHR 0x60]"

text \<open>\<open>Array.prototype.join\<close>.\<close>

fun join :: "string \<Rightarrow> string list \<Rightarrow> string" where
  "join sep [] = []"
| "join sep [x] = x"
| "join sep (x # y # ys) = x @ sep @ join sep (y # ys)"

text \<open>\<open>String.prototype.endsWith\<close> and \<open>String.prototype.includes\<close>.\<close>

definition endsWith :: "string \<Rightarrow> string \<Rightarrow> bool" where
  "endsWith s t = suffix t s"

definition strIncludes :: "string \<Rightarrow> string \<Rightarrow> bool" where
  "strIncludes s t = sublist t s"

text \<open>
  The decimal representation of a natural number (an array index) and of an integer.
\<close>

definition digitChar :: "nat \<Rightarrow> char" where
  "digitChar d = ''0123456789'' ! d"

function showNat :: "nat \<Rightarrow> string" where
  "showNat n = (if n < 10 then [digitChar n] else showNat (n div 10) @ [digitChar (n mod 10)])"
  by pat_completeness auto
termination
  by (relation "measure id") auto

declare showNat.simps [simp del]

function decimal :: "int \<Rightarrow> string" where
  "decimal i =
     (if i < 10 then [digitChar (nat i)] else decimal (i div 10) @ [digitChar (nat (i mod 10))])"
  by pat_completeness auto
termination
  by (relation "measure nat") auto

declare decimal.simps [simp del]

definition showInt :: "int \<Rightarrow> string" where
  "showInt i = (if i < 0 then CHR ''-'' # decimal (- i) else decimal i)"

text \<open>
  \<open>String.prototype.padStart(targetLength, padString)\<close>: the string is returned
  unchanged when it is long enough or the filler is empty; otherwise the filler is
  repeated and truncated to the missing length and put in front.
\<close>

definition padStart :: "nat \<Rightarrow> string \<Rightarrow> string \<Rightarrow> string" where
  "padStart n fill s =
     (if n \<le> length s \<or> fill = [] then s
      else take (n - length s) (concat (replicate (n - length s) fill)) @ s)"

text \<open>ASCII case mapping, as used by the snake-case conversion on the letters A to Z.\<close>

definition upperChars :: string where
  "upperChars = ''ABCDEFGHIJKLMNOPQRSTUVWXYZ''"

definition lowerChars :: string where
  "lowerChars = ''abcdefghijklmnopqrstuvwxyz''"

definition isUpper :: "char \<Rightarrow> bool" where
  "isUpper c = (c \<in> set upperChars)"

definition toLowerChar :: "char \<Rightarrow> char" where
  "toLowerChar c = (case map_of (zip upperChars lowerChars) c of Some l \<Rightarrow> l | None \<Rightarrow> c)"

text \<open>
  The default comparison of \<open>Array.prototype.sort\<close> on strings: lexicographic by
  code unit, a proper prefix first.
\<close>

fun strLess :: "string \<Rightarrow> string \<Rightarrow> bool" where
  "strLess [] [] = False"
| "strLess [] (y # ys) = True"
| "strLess (x # xs) [] = False"
| "strLess (x # xs) (y # ys) =
     ((of_char x :: nat) < of_char y \<or> (x = y \<and> strLess xs ys))"

text \<open>\<open>str.replace(/s$/, '')\<close>: drop one trailing \<open>s\<close>.\<close>

definition dropTrailingS :: "string \<Rightarrow> string" where
  "dropTrailingS s = (if endsWith s ''s'' then butlast s else s)"

section \<open>Numbers of the host language\<close>

text \<open>
  A number of the source is a double-precision floating-point value. The generator
  counts with numbers (\<open>version++\<close>) and prints them (\<open>String(version)\<close>, template
  literals). The model covers the integer-valued numbers, each modelled by the integer
  it denotes: every integer of magnitude at most \<open>2 ^ 53\<close> is a number, and a larger
  number is an integer with at most 53 significant binary digits.

  The result of an addition is the number nearest to the exact sum, and of two equally
  near numbers the one whose last significant binary digit is zero. \<open>nearestMagnitude\<close>
  rounds a non-negative integer to 53 significant binary digits in this way, and
  \<open>nearestNumber\<close> an integer of either sign. Adding one to a number never leaves the
  finite numbers, so the counter has no infinite value.
\<close>

function bitLength :: "int \<Rightarrow> nat" where
  "bitLength i = (if i \<le> 0 then 0 else Suc (bitLength (i div 2)))"
  by pat_completeness auto
termination
  by (relation "measure nat") auto

declare bitLength.simps [simp del]

definition nearestMagnitude :: "int \<Rightarrow> int" where
  "nearestMagnitude n =
     (if n \<le> 2 ^ 53 then n
      else
        (let e = bitLength n - 53;
             q = n div 2 ^ e;
             r = n mod 2 ^ e;
             half = 2 ^ (e - 1)
         in (if half < r \<or> (r = half \<and> odd q) then q + 1 else q) * 2 ^ e))"

definition nearestNumber :: "int \<Rightarrow> int" where
  "nearestNumber i = (if i < 0 then - nearestMagnitude (- i) else nearestMagnitude i)"

text \<open>\<open>version++\<close>: the value of the counter after the statement.\<close>

definition increment :: "int \<Rightarrow> int" where
  "increment version = nearestNumber (version + 1)"

text \<open>
  \<open>String(n)\<close> for a number \<open>n\<close>. The digits are those of the decimal numeral with the
  fewest significant digits that reads back as \<open>n\<close>, and among several such numerals
  the one nearest to \<open>n\<close> (the one with the even last digit when two are equally near).
  Up to \<open>2 ^ 53\<close> this is the decimal representation of the integer itself. A numeral of
  at most 21 digits is written out, with zeros after its significant digits; a longer one
  is written with an exponent.

  \<open>decimalNear n p\<close> is the multiple of \<open>p\<close> next to \<open>n\<close> that reads back as \<open>n\<close>, if
  there is one; \<open>shortestDecimal n j\<close> tries the powers of ten from \<open>10 ^ j\<close> downwards.
\<close>

definition decimalNear :: "int \<Rightarrow> int \<Rightarrow> int option" where
  "decimalNear n p =
     (let low = n div p * p;
          high = low + p;
          lowReads = (nearestMagnitude low = n);
          highReads = (nearestMagnitude high = n)
      in if lowReads \<and> highReads
         then Some (if n - low < high - n then low
                    else if high - n < n - low then high
                    else if even (n div p) then low else high)
         else if lowReads then Some low
         else if highReads then Some high
         else None)"

fun shortestDecimal :: "int \<Rightarrow> nat \<Rightarrow> int" where
  "shortestDecimal n 0 = n"
| "shortestDecimal n (Suc j) =
     (case decimalNear n (10 ^ Suc j) of Some c \<Rightarrow> c | None \<Rightarrow> shortestDecimal n j)"

definition magnitudeToString :: "int \<Rightarrow> string" where
  "magnitudeToString n =
     (if n \<le> 2 ^ 53 then decimal n
      else
        (let digits = decimal (shortestDecimal n (length (decimal n) - 1));
             significant = rev (dropWhile (\<lambda>c. c = CHR ''0'') (rev digits))
         in if length digits \<le> 21 then digits
            else hd significant # (if tl significant = [] then [] else CHR ''.'' # tl significant)
                 @ ''e+'' @ showNat (length digits - 1)))"

definition numberToString :: "int \<Rightarrow> string" where
  "numberToString i =
     (if i < 0 then CHR ''-'' # magnitudeToString (- i) else magnitudeToString i)"

section \<open>Data model\<close>

datatype SqlDialect = mysql | postgresql | sqlite

fun dialectName :: "SqlDialect \<Rightarrow> string" where
  "dialectName mysql = ''mysql''"
| "dialectName postgresql = ''postgresql''"
| "dialectName sqlite = ''sqlite''"

datatype MigrationType = create | alter | drop | pivot

record SqlMigration =
  m_version :: int
  m_name :: string
  m_fileName :: string
  m_content :: string
  m_tables :: "string list"
  m_type :: MigrationType

record SqlColumn =
  c_name :: string
  c_type :: string
  c_nullable :: bool
  c_primaryKey :: bool
  c_autoIncrement :: bool
  c_unique :: bool
  c_unsigned :: bool
  c_defaultValue :: "string option"
  c_comment :: "string option"

record SqlForeignKey =
  fk_name :: string
  fk_columns :: "string list"
  fk_referencesTable :: string
  fk_referencesColumns :: "string list"
  fk_onDelete :: string
  fk_onUpdate :: string

record SqlIndex =
  i_name :: string
  i_columns :: "string list"
  i_unique :: bool
  i_type :: "string option"

record SqlTable =
  t_name :: string
  t_columns :: "SqlColumn list"
  t_foreignKeys :: "SqlForeignKey list"
  t_indexes :: "SqlIndex list"
  t_comment :: "string option"

record SqlGeneratorOptions =
  o_dialect :: "SqlDialect option"
  o_ifNotExists :: "bool option"
  o_generateDown :: "bool option"
  o_startVersion :: "int option"
  o_versionPadding :: "nat option"
  o_version :: "int option"

record ResolvedSqlOptions =
  r_dialect :: SqlDialect
  r_ifNotExists :: bool
  r_generateDown :: bool
  r_startVersion :: int
  r_versionPadding :: nat

text \<open>
  The schema types come from the schema-loading package; the generator reads the
  fields below. A default value is a string, a boolean, or any other value, of which
  only its \<open>String(...)\<close> image is read. An \<open>enum\<close> attribute is either the name of
  an enum schema or an inline array of values. Optional fields are options.
\<close>

datatype DefaultValue = DString string | DBool bool | DOther string

datatype EnumSpec = EnumRef string | EnumValues "string list"

record PropertyDefinition =
  p_type :: string
  p_nullable :: "bool option"
  p_unique :: "bool option"
  p_default :: "DefaultValue option"
  p_displayName :: "string option"
  p_length :: "int option"
  p_precision :: "int option"
  p_scale :: "int option"
  p_enum :: "EnumSpec option"
  p_options :: "string list option"
  p_relation :: "string option"
  p_target :: "string option"
  p_targets :: "string list option"
  p_onDelete :: "string option"
  p_onUpdate :: "string option"
  p_joinTable :: "string option"

record IndexDefinition =
  x_name :: "string option"
  x_columns :: "string list"
  x_unique :: "bool option"
  x_type :: "string option"

text \<open>
  The \<open>unique\<close> option of a schema is a flat column list or a list of column lists.
\<close>

datatype UniqueSpec = UniqueFlat "string list" | UniqueNested "string list list"

record SchemaOptions =
  so_id :: "bool option"
  so_idType :: "string option"
  so_timestamps :: "bool option"
  so_softDelete :: "bool option"
  so_indexes :: "IndexDefinition list option"
  so_unique :: "UniqueSpec option"

text \<open>
  \<open>s_displayName\<close> holds the display name after \<open>resolveLocalizedString\<close> (a function
  of the schema-loading package).
\<close>

record LoadedSchema =
  s_name :: string
  s_kind :: "string option"
  s_displayName :: "string option"
  s_properties :: "(string \<times> PropertyDefinition) list option"
  s_options :: "SchemaOptions option"

text \<open>
  A schema collection is an object keyed by schema name. It is modelled by the list of
  its entries in enumeration order (the order of \<open>Object.entries\<close>); a key looked up in
  it is an own key of the object.
\<close>

type_synonym SchemaCollection = "(string \<times> LoadedSchema) list"

section \<open>Dialect type catalog\<close>

record TypeMapping =
  tm_type :: string
  tm_hasLength :: bool
  tm_defaultLength :: "int option"
  tm_hasPrecision :: bool

definition plainType :: "string \<Rightarrow> TypeMapping" where
  "plainType t = \<lparr>tm_type = t, tm_hasLength = False, tm_defaultLength = None, tm_hasPrecision = False\<rparr>"

definition lengthType :: "string \<Rightarrow> int \<Rightarrow> TypeMapping" where
  "lengthType t n = \<lparr>tm_type = t, tm_hasLength = True, tm_defaultLength = Some n, tm_hasPrecision = False\<rparr>"

definition precisionType :: "string \<Rightarrow> TypeMapping" where
  "precisionType t = \<lparr>tm_type = t, tm_hasLength = False, tm_defaultLength = None, tm_hasPrecision = True\<rparr>"

definition MYSQL_TYPES :: "(string \<times> TypeMapping) list" where
  "MYSQL_TYPES =
    [(''String'', lengthType ''VARCHAR'' 255),
     (''Int'', plainType ''INT''),
     (''BigInt'', plainType ''BIGINT''),
     (''Float'', plainType ''DOUBLE''),
     (''Decimal'', precisionType ''DECIMAL''),
     (''Boolean'', plainType ''TINYINT(1)''),
     (''Text'', plainType ''TEXT''),
     (''LongText'', plainType ''LONGTEXT''),
     (''Date'', plainType ''DATE''),
     (''Time'', plainType ''TIME''),
     (''Timestamp'', plainType ''TIMESTAMP''),
     (''Json'', plainType ''JSON''),
     (''Email'', lengthType ''VARCHAR'' 255),
     (''Password'', lengthType ''VARCHAR'' 255),
     (''File'', lengthType ''VARCHAR'' 255),
     (''MultiFile'', plainType ''JSON''),
     (''Uuid'', plainType ''CHAR(36)''),
     (''Select'', lengthType ''VARCHAR'' 255),
     (''Lookup'', plainType ''BIGINT UNSIGNED''),
     (''Point'', plainType ''POINT''),
     (''Coordinates'', plainType ''DECIMAL(10, 8)'')]"

definition POSTGRESQL_TYPES :: "(string \<times> TypeMapping) list" where
  "POSTGRESQL_TYPES =
    [(''String'', lengthType ''VARCHAR'' 255),
     (''Int'', plainType ''INTEGER''),
     (''BigInt'', plainType ''BIGINT''),
     (''Float'', plainType ''DOUBLE PRECISION''),
     (''Decimal'', precisionType ''DECIMAL''),
     (''Boolean'', plainType ''BOOLEAN''),
     (''Text'', plainType ''TEXT''),
     (''LongText'', plainType ''TEXT''),
     (''Date'', plainType ''DATE''),
     (''Time'', plainType ''TIME''),
     (''Timestamp'', plainType ''TIMESTAMP''),
     (''Json'', plainType ''JSONB''),
     (''Email'', lengthType ''VARCHAR'' 255),
     (''Password'', lengthType ''VARCHAR'' 255),
     (''File'', lengthType ''VARCHAR'' 255),
     (''MultiFile'', plainType ''JSONB''),
     (''Uuid'', plainType ''UUID''),
     (''Select'', lengthType ''VARCHAR'' 255),
     (''Lookup'', plainType ''BIGINT''),
     (''Point'', plainType ''geometry(Point, 4326)''),
     (''Coordinates'', plainType ''DECIMAL(10, 8)'')]"

definition SQLITE_TYPES :: "(string \<times> TypeMapping) list" where
  "SQLITE_TYPES =
    [(''String'', plainType ''TEXT''),
     (''Int'', plainType ''INTEGER''),
     (''BigInt'', plainType ''INTEGER''),
     (''Float'', plainType ''REAL''),
     (''Decimal'', plainType ''REAL''),
     (''Boolean'', plainType ''INTEGER''),
     (''Text'', plainType ''TEXT''),
     (''LongText'', plainType ''TEXT''),
     (''Date'', plainType ''TEXT''),
     (''Time'', plainType ''TEXT''),
     (''Timestamp'', plainType ''TEXT''),
     (''Json'', plainType ''TEXT''),
     (''Email'', plainType ''TEXT''),
     (''Password'', plainType ''TEXT''),
     (''File'', plainType ''TEXT''),
     (''MultiFile'', plainType ''TEXT''),
     (''Uuid'', plainType ''TEXT''),
     (''Select'', plainType ''TEXT''),
     (''Lookup'', plainType ''INTEGER''),
     (''Point'', plainType ''TEXT''),
     (''Coordinates'', plainType ''REAL'')]"

fun DIALECT_TYPES :: "SqlDialect \<Rightarrow> (string \<times> TypeMapping) list" where
  "DIALECT_TYPES mysql = MYSQL_TYPES"
| "DIALECT_TYPES postgresql = POSTGRESQL_TYPES"
| "DIALECT_TYPES sqlite = SQLITE_TYPES"

text \<open>
  \<open>getSqlType\<close>: an unknown type falls back to a generic text type; a length is
  \<open>length ?? defaultLength ?? 255\<close>; a precision is applied when it is given and not zero.
\<close>

definition getSqlType ::
  "string \<Rightarrow> SqlDialect \<Rightarrow> int option \<Rightarrow> int option \<Rightarrow> int option \<Rightarrow> string" where
  "getSqlType omnifyType dialect len precision scale =
     (case map_of (DIALECT_TYPES dialect) omnifyType of
        None \<Rightarrow> (if dialect = sqlite then ''TEXT'' else ''VARCHAR(255)'')
      | Some mapping \<Rightarrow>
          (let type1 =
                 (if tm_hasLength mapping
                  then tm_type mapping @ ''('' @
                       numberToString (case len of Some l \<Rightarrow> l
                                       | None \<Rightarrow> (case tm_defaultLength mapping of
                                                     Some d \<Rightarrow> d | None \<Rightarrow> 255))
                       @ '')''
                  else tm_type mapping)
           in (case precision of
                 Some p \<Rightarrow>
                   (if tm_hasPrecision mapping \<and> p \<noteq> 0
                    then type1 @ ''('' @ numberToString p @ '', '' @
                         numberToString (case scale of Some sc \<Rightarrow> sc | None \<Rightarrow> 2) @ '')''
                    else type1)
               | None \<Rightarrow> type1)))"

definition getPrimaryKeyType :: "string \<Rightarrow> SqlDialect \<Rightarrow> string \<times> bool" where
  "getPrimaryKeyType idType dialect =
     (case dialect of
        mysql \<Rightarrow>
          (if idType = ''Int'' then (''INT UNSIGNED'', True)
           else if idType = ''BigInt'' then (''BIGINT UNSIGNED'', True)
           else if idType = ''Uuid'' then (''CHAR(36)'', False)
           else if idType = ''String'' then (''VARCHAR(255)'', False)
           else (''BIGINT'', True))
      | postgresql \<Rightarrow>
          (if idType = ''Int'' then (''SERIAL'', False)
           else if idType = ''BigInt'' then (''BIGSERIAL'', False)
           else if idType = ''Uuid'' then (''UUID'', False)
           else if idType = ''String'' then (''VARCHAR(255)'', False)
           else (''BIGINT'', True))
      | sqlite \<Rightarrow>
          (if idType = ''Int'' \<or> idType = ''BigInt'' then (''INTEGER'', True)
           else if idType = ''Uuid'' \<or> idType = ''String'' then (''TEXT'', False)
           else (''BIGINT'', True)))"

definition getForeignKeyType :: "string \<Rightarrow> SqlDialect \<Rightarrow> string" where
  "getForeignKeyType referencedIdType dialect =
     (case dialect of
        mysql \<Rightarrow>
          (if referencedIdType = ''Int'' then ''INT UNSIGNED''
           else if referencedIdType = ''BigInt'' then ''BIGINT UNSIGNED''
           else if referencedIdType = ''Uuid'' then ''CHAR(36)''
           else if referencedIdType = ''String'' then ''VARCHAR(255)''
           else ''BIGINT'')
      | postgresql \<Rightarrow>
          (if referencedIdType = ''Int'' then ''INTEGER''
           else if referencedIdType = ''BigInt'' then ''BIGINT''
           else if referencedIdType = ''Uuid'' then ''UUID''
           else if referencedIdType = ''String'' then ''VARCHAR(255)''
           else ''BIGINT'')
      | sqlite \<Rightarrow>
          (if referencedIdType = ''Int'' \<or> referencedIdType = ''BigInt'' then ''INTEGER''
           else if referencedIdType = ''Uuid'' \<or> referencedIdType = ''String'' then ''TEXT''
           else ''BIGINT''))"

text \<open>
  \<open>getEnumType\<close> returns the column type and, for PostgreSQL, the statement that
  creates the named type.
\<close>

definition quotedValues :: "string list \<Rightarrow> string" where
  "quotedValues vs = join '', '' (map (\<lambda>v. sq @ v @ sq) vs)"

definition getEnumType ::
  "string list \<Rightarrow> SqlDialect \<Rightarrow> string option \<Rightarrow> string \<times> string option" where
  "getEnumType vs dialect enumName =
     (case dialect of
        mysql \<Rightarrow> (''ENUM('' @ quotedValues vs @ '')'', None)
      | postgresql \<Rightarrow>
          (let typeName = (case enumName of Some n \<Rightarrow> n | None \<Rightarrow> ''enum_type'')
           in (typeName,
               Some (''CREATE TYPE '' @ typeName @ '' AS ENUM ('' @ quotedValues vs @ '');'')))
      | sqlite \<Rightarrow> (''TEXT'', None))"

section \<open>SQL text formatter\<close>

fun quoteIdentifier :: "string \<Rightarrow> SqlDialect \<Rightarrow> string" where
  "quoteIdentifier name mysql = bt @ name @ bt"
| "quoteIdentifier name postgresql = dq @ name @ dq"
| "quoteIdentifier name sqlite = dq @ name @ dq"

definition quoteString :: "string \<Rightarrow> string" where
  "quoteString v = sq @ concat (map (\<lambda>c. if c = CHR 0x27 then sq @ sq else [c]) v) @ sq"

definition formatColumn :: "SqlColumn \<Rightarrow> SqlDialect \<Rightarrow> string" where
  "formatColumn column dialect =
     join '' ''
       ([quoteIdentifier (c_name column) dialect, c_type column]
        @ (if dialect = mysql \<and> c_unsigned column \<and> \<not> strIncludes (c_type column) ''UNSIGNED''
           then [''UNSIGNED''] else [])
        @ (if \<not> c_nullable column \<and> \<not> c_primaryKey column then [''NOT NULL'']
           else if c_nullable column then [''NULL''] else [])
        @ (if c_autoIncrement column \<and> dialect = mysql then [''AUTO_INCREMENT''] else [])
        @ (if c_primaryKey column
           then [''PRIMARY KEY'']
                @ (if dialect = sqlite \<and> c_autoIncrement column then [''AUTOINCREMENT''] else [])
           else [])
        @ (if c_unique column \<and> \<not> c_primaryKey column then [''UNIQUE''] else [])
        @ (case c_defaultValue column of Some d \<Rightarrow> [''DEFAULT '' @ d] | None \<Rightarrow> [])
        @ (case c_comment column of
             Some cm \<Rightarrow> (if cm \<noteq> [] \<and> dialect = mysql then [''COMMENT '' @ quoteString cm] else [])
           | None \<Rightarrow> []))"

definition formatForeignKey :: "SqlForeignKey \<Rightarrow> SqlDialect \<Rightarrow> string" where
  "formatForeignKey fk dialect =
     (let localCols = join '', '' (map (\<lambda>c. quoteIdentifier c dialect) (fk_columns fk));
          refCols = join '', '' (map (\<lambda>c. quoteIdentifier c dialect) (fk_referencesColumns fk));
          refTable = quoteIdentifier (fk_referencesTable fk) dialect
      in ''CONSTRAINT '' @ quoteIdentifier (fk_name fk) dialect @ '' ''
         @ ''FOREIGN KEY ('' @ localCols @ '') ''
         @ ''REFERENCES '' @ refTable @ '' ('' @ refCols @ '')''
         @ (if fk_onDelete fk \<noteq> [] \<and> fk_onDelete fk \<noteq> ''NO ACTION''
            then '' ON DELETE '' @ fk_onDelete fk else [])
         @ (if fk_onUpdate fk \<noteq> [] \<and> fk_onUpdate fk \<noteq> ''NO ACTION''
            then '' ON UPDATE '' @ fk_onUpdate fk else []))"

definition formatIndex :: "SqlIndex \<Rightarrow> string \<Rightarrow> SqlDialect \<Rightarrow> string" where
  "formatIndex index tableName dialect =
     (let cols = join '', '' (map (\<lambda>c. quoteIdentifier c dialect) (i_columns index));
          table = quoteIdentifier tableName dialect;
          name = quoteIdentifier (i_name index) dialect;
          plain = ''CREATE INDEX '' @ name @ '' ON '' @ table @ '' ('' @ cols @ '');''
      in if i_type index = Some ''fulltext'' then
           (case dialect of
              mysql \<Rightarrow> ''CREATE FULLTEXT INDEX '' @ name @ '' ON '' @ table @ '' ('' @ cols @ '');''
            | postgresql \<Rightarrow>
                ''CREATE INDEX '' @ name @ '' ON '' @ table @ '' USING GIN (''
                @ join '' || ''
                    (map (\<lambda>c. ''to_tsvector('' @ sq @ ''english'' @ sq @ '', ''
                               @ quoteIdentifier c dialect @ '')'') (i_columns index))
                @ '');''
            | sqlite \<Rightarrow> plain)
         else if i_type index = Some ''spatial'' then
           (case dialect of
              mysql \<Rightarrow> ''CREATE SPATIAL INDEX '' @ name @ '' ON '' @ table @ '' ('' @ cols @ '');''
            | postgresql \<Rightarrow>
                ''CREATE INDEX '' @ name @ '' ON '' @ table @ '' USING GIST ('' @ cols @ '');''
            | sqlite \<Rightarrow> plain)
         else if i_type index = Some ''gin'' \<and> dialect = postgresql then
           ''CREATE INDEX '' @ name @ '' ON '' @ table @ '' USING GIN ('' @ cols @ '');''
         else if i_type index = Some ''gist'' \<and> dialect = postgresql then
           ''CREATE INDEX '' @ name @ '' ON '' @ table @ '' USING GIST ('' @ cols @ '');''
         else if i_type index = Some ''hash'' then
           (case dialect of
              mysql \<Rightarrow> ''CREATE INDEX '' @ name @ '' ON '' @ table @ '' ('' @ cols @ '') USING HASH;''
            | postgresql \<Rightarrow>
                ''CREATE INDEX '' @ name @ '' ON '' @ table @ '' USING HASH ('' @ cols @ '');''
            | sqlite \<Rightarrow> plain)
         else ''CREATE '' @ (if i_unique index then ''UNIQUE INDEX'' else ''INDEX'') @ '' ''
              @ name @ '' ON '' @ table @ '' ('' @ cols @ '');'')"

definition formatCreateTable :: "SqlTable \<Rightarrow> SqlDialect \<Rightarrow> bool \<Rightarrow> string" where
  "formatCreateTable table dialect ifNotExists =
     (let tableName = quoteIdentifier (t_name table) dialect;
          lines = map (\<lambda>column. ''  '' @ formatColumn column dialect) (t_columns table)
                  @ map (\<lambda>fk. ''  '' @ formatForeignKey fk dialect) (t_foreignKeys table)
      in ''CREATE TABLE '' @ (if ifNotExists then ''IF NOT EXISTS '' else []) @ tableName
         @ '' ('' @ nl
         @ join ('','' @ nl) lines
         @ nl @ '')''
         @ (if dialect = mysql
            then '' ENGINE=InnoDB DEFAULT CHARSET=utf8mb4 COLLATE=utf8mb4_unicode_ci'' else [])
         @ '';''
         @ (case t_comment table of
              Some cm \<Rightarrow>
                (if cm \<noteq> [] \<and> dialect = postgresql
                 then nl @ nl @ ''COMMENT ON TABLE '' @ tableName @ '' IS '' @ quoteString cm @ '';''
                 else [])
            | None \<Rightarrow> []))"

definition formatDropTable :: "string \<Rightarrow> SqlDialect \<Rightarrow> bool \<Rightarrow> bool \<Rightarrow> string" where
  "formatDropTable tableName dialect ifExists cascade =
     ''DROP TABLE '' @ (if ifExists then ''IF EXISTS '' else [])
     @ quoteIdentifier tableName dialect
     @ (if cascade \<and> dialect = postgresql then '' CASCADE'' else []) @ '';''"

definition formatIndexes :: "SqlTable \<Rightarrow> SqlDialect \<Rightarrow> string list" where
  "formatIndexes table dialect =
     map (\<lambda>index. formatIndex index (t_name table) dialect) (t_indexes table)"

definition formatColumnComments :: "SqlTable \<Rightarrow> SqlDialect \<Rightarrow> string list" where
  "formatColumnComments table dialect =
     (if dialect \<noteq> postgresql then []
      else concat (map (\<lambda>column.
             (case c_comment column of
                Some cm \<Rightarrow>
                  (if cm \<noteq> []
                   then [''COMMENT ON COLUMN '' @ quoteIdentifier (t_name table) dialect @ ''.''
                         @ quoteIdentifier (c_name column) dialect @ '' IS '' @ quoteString cm @ '';'']
                   else [])
              | None \<Rightarrow> [])) (t_columns table)))"

section \<open>Schema builder\<close>

text \<open>
  \<open>toSnakeCase\<close>: every letter A to Z becomes an underscore and its lower-case
  letter; one leading underscore is removed.
\<close>

definition toSnakeCase :: "string \<Rightarrow> string" where
  "toSnakeCase str =
     (let r = concat (map (\<lambda>c. if isUpper c then [CHR ''_'', toLowerChar c] else [c]) str)
      in if r \<noteq> [] \<and> hd r = CHR ''_'' then tl r else r)"

definition toTableName :: "string \<Rightarrow> string" where
  "toTableName schemaName =
     (let snake = toSnakeCase schemaName
      in if endsWith snake ''y''
            \<and> \<not> (endsWith snake ''ay'' \<or> endsWith snake ''ey'' \<or> endsWith snake ''oy''
                   \<or> endsWith snake ''uy'')
         then butlast snake @ ''ies''
         else if endsWith snake ''s'' \<or> endsWith snake ''x'' \<or> endsWith snake ''ch''
                 \<or> endsWith snake ''sh''
         then snake @ ''es''
         else snake @ ''s'')"

definition toColumnName :: "string \<Rightarrow> string" where
  "toColumnName propertyName = toSnakeCase propertyName"

definition generatePrimaryKey :: "string \<Rightarrow> SqlDialect \<Rightarrow> SqlColumn" where
  "generatePrimaryKey idType dialect =
     (let pkInfo = getPrimaryKeyType idType dialect
      in \<lparr>c_name = ''id'', c_type = fst pkInfo, c_nullable = False, c_primaryKey = True,
          c_autoIncrement = snd pkInfo, c_unique = False, c_unsigned = False,
          c_defaultValue = None, c_comment = None\<rparr>)"

definition plainColumn :: "string \<Rightarrow> string \<Rightarrow> bool \<Rightarrow> bool \<Rightarrow> SqlColumn" where
  "plainColumn name type nullable unsigned =
     \<lparr>c_name = name, c_type = type, c_nullable = nullable, c_primaryKey = False,
      c_autoIncrement = False, c_unique = False, c_unsigned = unsigned,
      c_defaultValue = None, c_comment = None\<rparr>"

definition generateTimestampColumns :: "SqlDialect \<Rightarrow> SqlColumn list" where
  "generateTimestampColumns dialect =
     (let timestampType = (if dialect = sqlite then ''TEXT'' else ''TIMESTAMP'')
      in [plainColumn ''created_at'' timestampType True False,
          plainColumn ''updated_at'' timestampType True False])"

definition generateSoftDeleteColumn :: "SqlDialect \<Rightarrow> SqlColumn" where
  "generateSoftDeleteColumn dialect =
     plainColumn ''deleted_at'' (if dialect = sqlite then ''TEXT'' else ''TIMESTAMP'') True False"

definition orFalse :: "bool option \<Rightarrow> bool" where
  "orFalse b = (case b of Some v \<Rightarrow> v | None \<Rightarrow> False)"

definition generateCoordinatesColumns ::
  "string \<Rightarrow> PropertyDefinition \<Rightarrow> SqlDialect \<Rightarrow> SqlColumn list" where
  "generateCoordinatesColumns name property dialect =
     (let baseName = toColumnName name;
          nullable = orFalse (p_nullable property);
          latType = (if dialect = sqlite then ''REAL'' else ''DECIMAL(10, 8)'');
          lonType = (if dialect = sqlite then ''REAL'' else ''DECIMAL(11, 8)'')
      in [(plainColumn (baseName @ ''_latitude'') latType nullable False)
            \<lparr>c_comment := Some (''Latitude for '' @ name)\<rparr>,
          (plainColumn (baseName @ ''_longitude'') lonType nullable False)
            \<lparr>c_comment := Some (''Longitude for '' @ name)\<rparr>])"

text \<open>A default value inside a template literal: its \<open>String(...)\<close> image.\<close>

fun defaultText :: "DefaultValue \<Rightarrow> string" where
  "defaultText (DString v) = v"
| "defaultText (DBool b) = (if b then ''true'' else ''false'')"
| "defaultText (DOther v) = v"

definition enumColumn ::
  "string \<Rightarrow> PropertyDefinition \<Rightarrow> string \<Rightarrow> SqlColumn" where
  "enumColumn columnName property type =
     \<lparr>c_name = columnName, c_type = type, c_nullable = orFalse (p_nullable property),
      c_primaryKey = False, c_autoIncrement = False, c_unique = orFalse (p_unique property),
      c_unsigned = False,
      c_defaultValue = map_option (\<lambda>d. sq @ defaultText d @ sq) (p_default property),
      c_comment = p_displayName property\<rparr>"

definition propertyToColumn ::
  "string \<Rightarrow> PropertyDefinition \<Rightarrow> SqlDialect \<Rightarrow> SchemaCollection \<Rightarrow> SqlColumn option" where
  "propertyToColumn name property dialect allSchemas =
     (if p_type property = ''Association'' then None
      else if p_type property = ''Coordinates'' then None
      else
        (let columnName = toColumnName name;
             enumValues = (if p_type property = ''Enum''
                           then (case p_enum property of Some (EnumValues vs) \<Rightarrow> Some vs | _ \<Rightarrow> None)
                           else None)
         in case enumValues of
              Some vs \<Rightarrow>
                Some (enumColumn columnName property
                        (fst (getEnumType vs dialect (Some (columnName @ ''_enum'')))))
            | None \<Rightarrow>
               (case (if p_type property = ''Select'' then p_options property else None) of
                  Some opts \<Rightarrow>
                    Some (enumColumn columnName property
                            (fst (getEnumType opts dialect (Some (columnName @ ''_enum'')))))
                | None \<Rightarrow>
                    Some \<lparr>c_name = columnName,
                          c_type = getSqlType (p_type property) dialect (p_length property)
                                     (p_precision property) (p_scale property),
                          c_nullable = orFalse (p_nullable property),
                          c_primaryKey = False, c_autoIncrement = False,
                          c_unique = orFalse (p_unique property), c_unsigned = False,
                          c_defaultValue =
                            (case p_default property of
                               None \<Rightarrow> None
                             | Some (DString v) \<Rightarrow> Some (sq @ v @ sq)
                             | Some (DBool b) \<Rightarrow>
                                 Some (if dialect = postgresql
                                       then (if b then ''TRUE'' else ''FALSE'')
                                       else (if b then ''1'' else ''0''))
                             | Some (DOther v) \<Rightarrow> Some v),
                          c_comment = p_displayName property\<rparr>)))"

text \<open>The identity kind of a schema found in the collection, \<open>BigInt\<close> by default.\<close>

definition idTypeOf :: "LoadedSchema option \<Rightarrow> string" where
  "idTypeOf schema =
     (case schema of
        None \<Rightarrow> ''BigInt''
      | Some sc \<Rightarrow>
          (case s_options sc of
             None \<Rightarrow> ''BigInt''
           | Some opts \<Rightarrow> (case so_idType opts of None \<Rightarrow> ''BigInt'' | Some t \<Rightarrow> t)))"

definition usesUuid :: "LoadedSchema option \<Rightarrow> bool" where
  "usesUuid schema =
     (case schema of
        None \<Rightarrow> False
      | Some sc \<Rightarrow>
          (case s_options sc of None \<Rightarrow> False | Some opts \<Rightarrow> so_idType opts = Some ''Uuid''))"

definition isIntegerId :: "string \<Rightarrow> bool" where
  "isIntegerId idType = (idType = ''Int'' \<or> idType = ''BigInt'')"

definition orCascade :: "string option \<Rightarrow> string" where
  "orCascade a = (case a of Some v \<Rightarrow> v | None \<Rightarrow> ''CASCADE'')"

definition generateForeignKey ::
  "string \<Rightarrow> PropertyDefinition \<Rightarrow> LoadedSchema \<Rightarrow> SqlDialect \<Rightarrow> SchemaCollection
   \<Rightarrow> (SqlColumn \<times> SqlForeignKey) option" where
  "generateForeignKey name property schema dialect allSchemas =
     (if p_type property \<noteq> ''Association'' then None
      else if p_relation property \<noteq> Some ''ManyToOne'' \<and> p_relation property \<noteq> Some ''OneToOne''
      then None
      else
        (case p_target property of
           None \<Rightarrow> None
         | Some targetName \<Rightarrow>
             (if targetName = [] then None
              else
                (let targetIdType = idTypeOf (map_of allSchemas targetName);
                     columnName = toColumnName name @ ''_id'';
                     fkType = getForeignKeyType targetIdType dialect;
                     constraintName = ''fk_'' @ toTableName (s_name schema) @ ''_'' @ columnName
                 in Some
                      (plainColumn columnName fkType (orFalse (p_nullable property))
                         (dialect = mysql \<and> isIntegerId targetIdType),
                       \<lparr>fk_name = constraintName, fk_columns = [columnName],
                        fk_referencesTable = toTableName targetName,
                        fk_referencesColumns = [''id''],
                        fk_onDelete = orCascade (p_onDelete property),
                        fk_onUpdate = orCascade (p_onUpdate property)\<rparr>)))))"

definition morphIdType :: "bool \<Rightarrow> SqlDialect \<Rightarrow> string" where
  "morphIdType useUuid dialect =
     (if useUuid
      then (if dialect = mysql then ''CHAR(36)'' else if dialect = postgresql then ''UUID'' else ''TEXT'')
      else (if dialect = mysql then ''BIGINT UNSIGNED''
            else if dialect = postgresql then ''BIGINT'' else ''INTEGER''))"

definition generatePolymorphicColumns ::
  "string \<Rightarrow> PropertyDefinition \<Rightarrow> SqlDialect \<Rightarrow> SchemaCollection
   \<Rightarrow> (SqlColumn list \<times> SqlIndex) option" where
  "generatePolymorphicColumns name property dialect allSchemas =
     (if p_type property \<noteq> ''Association'' then None
      else if p_relation property \<noteq> Some ''MorphTo'' then None
      else
        (case p_targets property of
           None \<Rightarrow> None
         | Some targets \<Rightarrow>
             (if targets = [] then None
              else
                (let baseName = toColumnName name;
                     useUuid = (\<exists>targetName \<in> set targets. usesUuid (map_of allSchemas targetName));
                     enumInfo = getEnumType targets dialect (Some (baseName @ ''_type_enum''));
                     typeColumn = plainColumn (baseName @ ''_type'') (fst enumInfo) True False;
                     idColumn = plainColumn (baseName @ ''_id'') (morphIdType useUuid dialect) True
                                  (dialect = mysql \<and> \<not> useUuid);
                     index = \<lparr>i_name = ''idx_'' @ baseName @ ''_type_id'',
                              i_columns = [baseName @ ''_type'', baseName @ ''_id''],
                              i_unique = False, i_type = None\<rparr>
                 in Some ([typeColumn, idColumn], index)))))"

text \<open>
  \<open>schemaToTable\<close>. One iteration of its loop over the properties pushes columns,
  foreign keys and indexes that depend on the property alone; \<open>propertyParts\<close> is what
  one iteration pushes, and the table collects the iterations in declaration order.
\<close>

definition propertyParts ::
  "LoadedSchema \<Rightarrow> SqlDialect \<Rightarrow> SchemaCollection \<Rightarrow> string \<times> PropertyDefinition
   \<Rightarrow> SqlColumn list \<times> SqlForeignKey list \<times> SqlIndex list" where
  "propertyParts schema dialect allSchemas entry =
     (let propName = fst entry; property = snd entry
      in case propertyToColumn propName property dialect allSchemas of
           Some column \<Rightarrow>
             ([column], [],
              (if c_unique column
               then [\<lparr>i_name = ''idx_'' @ toTableName (s_name schema) @ ''_'' @ c_name column
                                 @ ''_unique'',
                       i_columns = [c_name column], i_unique = True, i_type = None\<rparr>]
               else []))
         | None \<Rightarrow>
            (case generateForeignKey propName property schema dialect allSchemas of
               Some fkResult \<Rightarrow>
                 ([fst fkResult], [snd fkResult],
                  [\<lparr>i_name = ''idx_'' @ toTableName (s_name schema) @ ''_'' @ c_name (fst fkResult),
                    i_columns = [c_name (fst fkResult)], i_unique = False, i_type = None\<rparr>])
             | None \<Rightarrow>
                (case generatePolymorphicColumns propName property dialect allSchemas of
                   Some morphResult \<Rightarrow> (fst morphResult, [], [snd morphResult])
                 | None \<Rightarrow>
                     (if p_type property = ''Coordinates''
                      then (generateCoordinatesColumns propName property dialect, [], [])
                      else ([], [], [])))))"

definition propertiesOf :: "LoadedSchema \<Rightarrow> (string \<times> PropertyDefinition) list" where
  "propertiesOf schema = (case s_properties schema of Some ps \<Rightarrow> ps | None \<Rightarrow> [])"

definition customIndex :: "LoadedSchema \<Rightarrow> IndexDefinition \<Rightarrow> SqlIndex" where
  "customIndex schema indexDef =
     \<lparr>i_name = (case x_name indexDef of
                  Some n \<Rightarrow> n
                | None \<Rightarrow> ''idx_'' @ toTableName (s_name schema) @ ''_''
                          @ join ''_'' (map toColumnName (x_columns indexDef))),
      i_columns = map toColumnName (x_columns indexDef),
      i_unique = orFalse (x_unique indexDef),
      i_type = x_type indexDef\<rparr>"

text \<open>
  The \<open>unique\<close> option is read as a list of column groups when its first element is
  an array, and as one column group otherwise (so also when it is empty).
\<close>

fun uniqueConstraints :: "UniqueSpec \<Rightarrow> string list list" where
  "uniqueConstraints (UniqueFlat cols) = [cols]"
| "uniqueConstraints (UniqueNested []) = [[]]"
| "uniqueConstraints (UniqueNested (g # gs)) = g # gs"

definition uniqueIndex :: "LoadedSchema \<Rightarrow> string list \<Rightarrow> SqlIndex" where
  "uniqueIndex schema constraint =
     (let constraintColumns = map toColumnName constraint
      in \<lparr>i_name = ''idx_'' @ toTableName (s_name schema) @ ''_'' @ join ''_'' constraintColumns
                     @ ''_unique'',
          i_columns = constraintColumns, i_unique = True, i_type = None\<rparr>)"

definition schemaToTable ::
  "LoadedSchema \<Rightarrow> SchemaCollection \<Rightarrow> ResolvedSqlOptions \<Rightarrow> SqlTable" where
  "schemaToTable schema allSchemas options =
     (let dialect = r_dialect options;
          opts = s_options schema;
          parts = map (propertyParts schema dialect allSchemas) (propertiesOf schema);
          pk = (if (case opts of Some os \<Rightarrow> so_id os \<noteq> Some False | None \<Rightarrow> True)
                then [generatePrimaryKey (idTypeOf (Some schema)) dialect] else []);
          timestamps = (if (case opts of Some os \<Rightarrow> so_timestamps os \<noteq> Some False | None \<Rightarrow> True)
                        then generateTimestampColumns dialect else []);
          softDelete = (if (case opts of Some os \<Rightarrow> so_softDelete os = Some True | None \<Rightarrow> False)
                        then [generateSoftDeleteColumn dialect] else []);
          custom = (case opts of
                      Some os \<Rightarrow> (case so_indexes os of
                                    Some ixs \<Rightarrow> map (customIndex schema) ixs | None \<Rightarrow> [])
                    | None \<Rightarrow> []);
          uniques = (case opts of
                       Some os \<Rightarrow> (case so_unique os of
                                     Some u \<Rightarrow> map (uniqueIndex schema) (uniqueConstraints u)
                                   | None \<Rightarrow> [])
                     | None \<Rightarrow> [])
      in \<lparr>t_name = toTableName (s_name schema),
          t_columns = pk @ concat (map fst parts) @ timestamps @ softDelete,
          t_foreignKeys = concat (map (\<lambda>part. fst (snd part)) parts),
          t_indexes = concat (map (\<lambda>part. snd (snd part)) parts) @ custom @ uniques,
          t_comment = s_displayName schema\<rparr>)"

text \<open>\<open>[sourceTable, targetTable].sort()\<close>.\<close>

definition sortPair :: "string \<Rightarrow> string \<Rightarrow> string \<times> string" where
  "sortPair a b = (if strLess b a then (b, a) else (a, b))"

definition generatePivotTable ::
  "LoadedSchema \<Rightarrow> string \<Rightarrow> PropertyDefinition \<Rightarrow> SchemaCollection \<Rightarrow> ResolvedSqlOptions
   \<Rightarrow> SqlTable option" where
  "generatePivotTable sourceSchema propertyName property allSchemas options =
     (if p_type property \<noteq> ''Association'' then None
      else if p_relation property \<noteq> Some ''ManyToMany'' then None
      else
        (case p_target property of
           None \<Rightarrow> None
         | Some target \<Rightarrow>
             (if target = [] then None
              else
                (case map_of allSchemas target of
                   None \<Rightarrow> None
                 | Some targetSchema \<Rightarrow>
                     (let dialect = r_dialect options;
                          sourceTable = toTableName (s_name sourceSchema);
                          targetTable = toTableName target;
                          tables = sortPair sourceTable targetTable;
                          pivotName = (case p_joinTable property of
                                         Some jt \<Rightarrow> jt
                                       | None \<Rightarrow> fst tables @ ''_'' @ snd tables);
                          sourceIdType = idTypeOf (Some sourceSchema);
                          targetIdType = idTypeOf (Some targetSchema);
                          sourceColName = toSnakeCase (s_name sourceSchema) @ ''_id'';
                          targetColName = toSnakeCase target @ ''_id''
                      in Some
                           \<lparr>t_name = pivotName,
                            t_columns =
                              [plainColumn sourceColName (getForeignKeyType sourceIdType dialect)
                                 False (dialect = mysql \<and> isIntegerId sourceIdType),
                               plainColumn targetColName (getForeignKeyType targetIdType dialect)
                                 False (dialect = mysql \<and> isIntegerId targetIdType)],
                            t_foreignKeys =
                              [\<lparr>fk_name = ''fk_'' @ pivotName @ ''_'' @ sourceColName,
                                fk_columns = [sourceColName],
                                fk_referencesTable = sourceTable,
                                fk_referencesColumns = [''id''],
                                fk_onDelete = orCascade (p_onDelete property),
                                fk_onUpdate = ''CASCADE''\<rparr>,
                               \<lparr>fk_name = ''fk_'' @ pivotName @ ''_'' @ targetColName,
                                fk_columns = [targetColName],
                                fk_referencesTable = targetTable,
                                fk_referencesColumns = [''id''],
                                fk_onDelete = orCascade (p_onDelete property),
                                fk_onUpdate = ''CASCADE''\<rparr>],
                            t_indexes =
                              [\<lparr>i_name = ''idx_'' @ pivotName @ ''_unique'',
                                i_columns = [sourceColName, targetColName],
                                i_unique = True, i_type = None\<rparr>,
                               \<lparr>i_name = ''idx_'' @ pivotName @ ''_'' @ sourceColName,
                                i_columns = [sourceColName],
                                i_unique = False, i_type = None\<rparr>,
                               \<lparr>i_name = ''idx_'' @ pivotName @ ''_'' @ targetColName,
                                i_columns = [targetColName],
                                i_unique = False, i_type = None\<rparr>],
                            t_comment = None\<rparr>)))))"

text \<open>
  The owners of a polymorphic pivot: the source schema first, then every other entry of
  the collection that declares a \<open>MorphToMany\<close> association to the same target, each
  name once.
\<close>

definition isMorphToManyTo :: "string \<Rightarrow> PropertyDefinition \<Rightarrow> bool" where
  "isMorphToManyTo target prop =
     (p_type prop = ''Association'' \<and> p_relation prop = Some ''MorphToMany''
      \<and> p_target prop = Some target)"

definition morphTargetsStep ::
  "string \<Rightarrow> string \<Rightarrow> string list \<Rightarrow> string \<times> LoadedSchema \<Rightarrow> string list" where
  "morphTargetsStep sourceName target acc entry =
     (if fst entry = sourceName then acc
      else foldl (\<lambda>acc' prop.
                    if isMorphToManyTo target prop \<and> fst entry \<notin> set acc'
                    then acc' @ [fst entry] else acc')
             acc (map snd (propertiesOf (snd entry))))"

definition morphTargets :: "LoadedSchema \<Rightarrow> string \<Rightarrow> SchemaCollection \<Rightarrow> string list" where
  "morphTargets sourceSchema target allSchemas =
     foldl (morphTargetsStep (s_name sourceSchema) target) [s_name sourceSchema] allSchemas"

definition generateMorphPivotTable ::
  "LoadedSchema \<Rightarrow> string \<Rightarrow> PropertyDefinition \<Rightarrow> SchemaCollection \<Rightarrow> ResolvedSqlOptions
   \<Rightarrow> SqlTable option" where
  "generateMorphPivotTable sourceSchema propertyName property allSchemas options =
     (if p_type property \<noteq> ''Association'' then None
      else if p_relation property \<noteq> Some ''MorphToMany'' then None
      else
        (case p_target property of
           None \<Rightarrow> None
         | Some target \<Rightarrow>
             (if target = [] then None
              else
                (case map_of allSchemas target of
                   None \<Rightarrow> None
                 | Some targetSchema \<Rightarrow>
                     (let dialect = r_dialect options;
                          morphName = dropTrailingS (toSnakeCase target) @ ''ables'';
                          pivotName = (case p_joinTable property of
                                         Some jt \<Rightarrow> jt | None \<Rightarrow> morphName);
                          targetIdType = idTypeOf (Some targetSchema);
                          targetColName = toSnakeCase target @ ''_id'';
                          morphTypeName = dropTrailingS morphName @ ''_type'';
                          morphIdName = dropTrailingS morphName @ ''_id'';
                          owners = morphTargets sourceSchema target allSchemas;
                          useUuid = (\<exists>targetName \<in> set owners.
                                       usesUuid (map_of allSchemas targetName));
                          enumInfo = getEnumType owners dialect (Some (morphTypeName @ ''_enum''))
                      in Some
                           \<lparr>t_name = pivotName,
                            t_columns =
                              [plainColumn targetColName (getForeignKeyType targetIdType dialect)
                                 False (dialect = mysql \<and> isIntegerId targetIdType),
                               plainColumn morphTypeName (fst enumInfo) False False,
                               plainColumn morphIdName (morphIdType useUuid dialect) False
                                 (dialect = mysql \<and> \<not> useUuid)],
                            t_foreignKeys =
                              [\<lparr>fk_name = ''fk_'' @ pivotName @ ''_'' @ targetColName,
                                fk_columns = [targetColName],
                                fk_referencesTable = toTableName target,
                                fk_referencesColumns = [''id''],
                                fk_onDelete = orCascade (p_onDelete property),
                                fk_onUpdate = ''CASCADE''\<rparr>],
                            t_indexes =
                              [\<lparr>i_name = ''idx_'' @ pivotName @ ''_unique'',
                                i_columns = [targetColName, morphTypeName, morphIdName],
                                i_unique = True, i_type = None\<rparr>,
                               \<lparr>i_name = ''idx_'' @ pivotName @ ''_'' @ targetColName,
                                i_columns = [targetColName],
                                i_unique = False, i_type = None\<rparr>,
                               \<lparr>i_name = ''idx_'' @ pivotName @ ''_morphable'',
                                i_columns = [morphTypeName, morphIdName],
                                i_unique = False, i_type = None\<rparr>],
                            t_comment = None\<rparr>)))))"

section \<open>Compatibility validation\<close>

text \<open>
  The two tables of incompatibilities. The texts of the reasons and suggestions are
  named apart, so that the tables read as tables.
\<close>

definition pointReason :: string where
  "pointReason = ''SQLite does not support native spatial types. Point will be stored as TEXT (JSON), which is incompatible with MySQL/PostgreSQL spatial functions (ST_Distance, ST_Within, etc.). Use Coordinates type for cross-database compatibility.''"

definition ginReason :: string where
  "ginReason = ''GIN (Generalized Inverted Index) is PostgreSQL-specific.''"

definition ginSuggestion :: string where
  \<open>ginSuggestion = ''For fulltext search, use type: "fulltext" instead. For JSONB indexing, this only works in PostgreSQL.''\<close>

definition gistReason :: string where
  "gistReason = ''GiST (Generalized Search Tree) is PostgreSQL-specific.''"

definition gistSuggestion :: string where
  \<open>gistSuggestion = ''For spatial data, use type: "spatial" which works on both MySQL and PostgreSQL.''\<close>

definition fulltextReason :: string where
  "fulltextReason = ''SQLite does not support native fulltext indexes. FTS requires virtual tables which are not auto-generated.''"

definition fulltextSuggestion :: string where
  "fulltextSuggestion = ''Consider using a regular index or implementing SQLite FTS manually.''"

definition spatialReason :: string where
  "spatialReason = ''SQLite does not support spatial indexes.''"

definition spatialSuggestion :: string where
  "spatialSuggestion = ''Use Coordinates type with regular indexes for cross-database compatibility.''"

definition DIALECT_INCOMPATIBLE_TYPES :: "(string \<times> SqlDialect list \<times> string) list" where
  "DIALECT_INCOMPATIBLE_TYPES = [(''Point'', [sqlite], pointReason)]"

definition DIALECT_INCOMPATIBLE_INDEX_TYPES ::
  "(string \<times> SqlDialect list \<times> string \<times> string option) list" where
  "DIALECT_INCOMPATIBLE_INDEX_TYPES =
    [(''gin'', [mysql, sqlite], ginReason, Some ginSuggestion),
     (''gist'', [mysql, sqlite], gistReason, Some gistSuggestion),
     (''fulltext'', [sqlite], fulltextReason, Some fulltextSuggestion),
     (''spatial'', [sqlite], spatialReason, Some spatialSuggestion)]"

text \<open>
  The two tables are plain objects, and a type name is looked up in them as
  \<open>table[name]\<close>. Such a lookup finds the table's own entries and also the members that
  every plain object inherits. An inherited member is a function (for \<open>__proto__\<close>, the
  prototype object): it passes the test \<open>incompatibility &&\<close>, it has no \<open>dialects\<close>
  member, and the call \<open>incompatibility.dialects.includes(dialect)\<close> throws a
  \<open>TypeError\<close>.
\<close>

definition inheritedMembers :: "string list" where
  "inheritedMembers =
     [''constructor'', ''__defineGetter__'', ''__defineSetter__'', ''hasOwnProperty'',
      ''__lookupGetter__'', ''__lookupSetter__'', ''isPrototypeOf'', ''propertyIsEnumerable'',
      ''toString'', ''valueOf'', ''__proto__'', ''toLocaleString'']"

datatype 'a lookup = Own 'a | Inherited | Absent

definition memberOf :: "(string \<times> 'a) list \<Rightarrow> string \<Rightarrow> 'a lookup" where
  "memberOf table name =
     (case map_of table name of
        Some v \<Rightarrow> Own v
      | None \<Rightarrow> (if name \<in> set inheritedMembers then Inherited else Absent))"

text \<open>
  What is thrown: the \<open>Error\<close> that the validation builds, with its message, or the
  \<open>TypeError\<close> of the host (its message is the engine's and is not modelled).
\<close>

datatype error = Error string | TypeError

definition propertyError :: "SqlDialect \<Rightarrow> string \<Rightarrow> string \<Rightarrow> string \<Rightarrow> string \<Rightarrow> string" where
  "propertyError dialect schemaName propName propType reason =
     ''Schema '' @ dq @ schemaName @ dq @ '', property '' @ dq @ propName @ dq @ '': Type ''
     @ dq @ propType @ dq @ '' is not supported in '' @ dialectName dialect @ ''. '' @ reason"

text \<open>
  A loop whose body pushes error texts or throws: the texts pushed by the whole loop, in
  order, or what the first throwing iteration throws.
\<close>

fun pushEach :: "('a \<Rightarrow> error + string list) \<Rightarrow> 'a list \<Rightarrow> error + string list" where
  "pushEach body [] = Inr []"
| "pushEach body (x # xs) =
     (case body x of
        Inl e \<Rightarrow> Inl e
      | Inr errors \<Rightarrow>
          (case pushEach body xs of
             Inl e \<Rightarrow> Inl e
           | Inr rest \<Rightarrow> Inr (errors @ rest)))"

text \<open>
  The body of the loop over the properties of a schema, and the loop.
\<close>

definition propertyEntryErrors ::
  "SqlDialect \<Rightarrow> string \<Rightarrow> string \<times> PropertyDefinition \<Rightarrow> error + string list" where
  "propertyEntryErrors dialect schemaName entry =
     (case memberOf DIALECT_INCOMPATIBLE_TYPES (p_type (snd entry)) of
        Own incompatibility \<Rightarrow>
          Inr (if dialect \<in> set (fst incompatibility)
               then [propertyError dialect schemaName (fst entry) (p_type (snd entry))
                       (snd incompatibility)]
               else [])
      | Inherited \<Rightarrow> Inl TypeError
      | Absent \<Rightarrow> Inr [])"

definition propertyErrors :: "SqlDialect \<Rightarrow> string \<Rightarrow> LoadedSchema \<Rightarrow> error + string list" where
  "propertyErrors dialect schemaName schema =
     pushEach (propertyEntryErrors dialect schemaName) (propertiesOf schema)"

definition indexError ::
  "SqlDialect \<Rightarrow> string \<Rightarrow> IndexDefinition \<Rightarrow> string \<Rightarrow> string \<Rightarrow> string option \<Rightarrow> string" where
  "indexError dialect schemaName indexDef indexType reason suggestion =
     (let indexName = (case x_name indexDef of
                         Some n \<Rightarrow> n
                       | None \<Rightarrow> ''index on ['' @ join '', '' (x_columns indexDef) @ '']'')
      in ''Schema '' @ dq @ schemaName @ dq @ '', index '' @ dq @ indexName @ dq
         @ '': Index type '' @ dq @ indexType @ dq @ '' is not supported in ''
         @ dialectName dialect @ ''. '' @ reason
         @ (case suggestion of
              Some sg \<Rightarrow> (if sg \<noteq> [] then '' '' @ sg else [])
            | None \<Rightarrow> []))"

text \<open>
  The custom indexes of a schema (\<open>schema.options?.indexes\<close>, none when absent), the
  body of the loop over them (an index without a type, or with the empty string as its
  type, is skipped), and the loop.
\<close>

definition indexesOf :: "LoadedSchema \<Rightarrow> IndexDefinition list" where
  "indexesOf schema =
     (case s_options schema of
        None \<Rightarrow> []
      | Some opts \<Rightarrow> (case so_indexes opts of None \<Rightarrow> [] | Some indexDefs \<Rightarrow> indexDefs))"

definition indexDefErrors ::
  "SqlDialect \<Rightarrow> string \<Rightarrow> IndexDefinition \<Rightarrow> error + string list" where
  "indexDefErrors dialect schemaName indexDef =
     (case x_type indexDef of
        None \<Rightarrow> Inr []
      | Some indexType \<Rightarrow>
          (if indexType = [] then Inr []
           else
             (case memberOf DIALECT_INCOMPATIBLE_INDEX_TYPES indexType of
                Own incompatibility \<Rightarrow>
                  Inr (if dialect \<in> set (fst incompatibility)
                       then [indexError dialect schemaName indexDef indexType
                               (fst (snd incompatibility)) (snd (snd incompatibility))]
                       else [])
              | Inherited \<Rightarrow> Inl TypeError
              | Absent \<Rightarrow> Inr [])))"

definition indexErrors :: "SqlDialect \<Rightarrow> string \<Rightarrow> LoadedSchema \<Rightarrow> error + string list" where
  "indexErrors dialect schemaName schema =
     pushEach (indexDefErrors dialect schemaName) (indexesOf schema)"

text \<open>
  The body of the loop over the schemas: an enum schema is skipped; for any other schema
  the properties are checked first, then the indexes. \<open>validationErrors\<close> is the loop:
  the content of the array \<open>errors\<close> after it, unless an iteration throws.
\<close>

definition schemaErrors :: "SqlDialect \<Rightarrow> string \<times> LoadedSchema \<Rightarrow> error + string list" where
  "schemaErrors dialect entry =
     (if s_kind (snd entry) = Some ''enum'' then Inr []
      else
        (case propertyErrors dialect (fst entry) (snd entry) of
           Inl e \<Rightarrow> Inl e
         | Inr errors \<Rightarrow>
             (case indexErrors dialect (fst entry) (snd entry) of
                Inl e \<Rightarrow> Inl e
              | Inr rest \<Rightarrow> Inr (errors @ rest))))"

definition validationErrors :: "SchemaCollection \<Rightarrow> SqlDialect \<Rightarrow> error + string list" where
  "validationErrors schemas dialect = pushEach (schemaErrors dialect) schemas"

text \<open>
  The numbering of the entries (\<open>i + 1\<close> for an array index \<open>i\<close>) and the message.
\<close>

definition numbered :: "string list \<Rightarrow> string list" where
  "numbered errors = map (\<lambda>(i, e). showNat (i + 1) @ ''. '' @ e) (zip [0..<length errors] errors)"

definition errorMessage :: "SqlDialect \<Rightarrow> string list \<Rightarrow> string" where
  "errorMessage dialect errors =
     ''SQL Generator: Incompatible types detected for dialect '' @ dq @ dialectName dialect @ dq
     @ '':'' @ nl @ nl
     @ join (nl @ nl) (numbered errors)
     @ nl @ nl @ ''To fix: Either change the type/index or use a compatible dialect.''"

text \<open>\<open>validateSchemaCompatibility\<close> throws (\<open>Some\<close> error) or returns (\<open>None\<close>).\<close>

definition validateSchemaCompatibility :: "SchemaCollection \<Rightarrow> SqlDialect \<Rightarrow> error option" where
  "validateSchemaCompatibility schemas dialect =
     (case validationErrors schemas dialect of
        Inl e \<Rightarrow> Some e
      | Inr errors \<Rightarrow>
          (if length errors > 0 then Some (Error (errorMessage dialect errors)) else None))"

section \<open>Migration generator\<close>

definition resolveOptions :: "SqlGeneratorOptions option \<Rightarrow> ResolvedSqlOptions" where
  "resolveOptions options =
     \<lparr>r_dialect = (case Option.bind options o_dialect of Some d \<Rightarrow> d | None \<Rightarrow> mysql),
      r_ifNotExists = (case Option.bind options o_ifNotExists of Some b \<Rightarrow> b | None \<Rightarrow> True),
      r_generateDown = (case Option.bind options o_generateDown of Some b \<Rightarrow> b | None \<Rightarrow> True),
      r_startVersion = (case Option.bind options o_startVersion of Some v \<Rightarrow> v | None \<Rightarrow> 1),
      r_versionPadding = (case Option.bind options o_versionPadding of Some w \<Rightarrow> w | None \<Rightarrow> 4)\<rparr>"

definition formatVersion :: "int \<Rightarrow> nat \<Rightarrow> string" where
  "formatVersion version padding = padStart padding ''0'' (numberToString version)"

definition generateFileName :: "int \<Rightarrow> string \<Rightarrow> nat \<Rightarrow> string" where
  "generateFileName version name padding = formatVersion version padding @ ''_'' @ name @ ''.sql''"

definition generateCreateTableSql :: "SqlTable \<Rightarrow> ResolvedSqlOptions \<Rightarrow> string" where
  "generateCreateTableSql table options =
     (let dialect = r_dialect options;
          indexStatements = formatIndexes table dialect;
          commentStatements = formatColumnComments table dialect
      in join nl
           ([''-- Migration: Create '' @ t_name table @ '' table'',
             ''-- Generated by @famgia/omnify-sql'',
             [],
             formatCreateTable table dialect (r_ifNotExists options),
             []]
            @ (if length indexStatements > 0 then [''-- Indexes''] @ indexStatements @ [[]] else [])
            @ (if length commentStatements > 0
               then [''-- Column comments''] @ commentStatements @ [[]] else [])
            @ (if r_generateDown options
               then [''-- Down migration'',
                     ''-- '' @ formatDropTable (t_name table) dialect True True]
               else [])))"

text \<open>
  \<open>topologicalSort\<close>. The closure \<open>visit\<close> works on three mutable variables: the
  result list and the sets \<open>visited\<close> and \<open>visiting\<close>; they are the state threaded
  through the model. \<open>dependencyTargets\<close> lists, in declaration order, the targets on
  which the loop over the properties calls \<open>visit\<close>.

  The recursion of \<open>visit\<close> is bounded by a fuel argument that counts nested calls;
  \<open>None\<close> stands for a run that does not return within the bound. \<open>visitEach\<close> is a
  loop calling \<open>visit\<close> on each name of a list. The sort starts with more fuel than
  there are schemas, which is shown below to be enough on every input.
\<close>

record SortState =
  ts_sorted :: "LoadedSchema list"
  ts_visited :: "string set"
  ts_visiting :: "string set"

definition dependencyTargets :: "LoadedSchema \<Rightarrow> string list" where
  "dependencyTargets schema =
     concat (map (\<lambda>entry.
        (let property = snd entry
         in if p_type property = ''Association''
               \<and> (p_relation property = Some ''ManyToOne'' \<or> p_relation property = Some ''OneToOne'')
            then (case p_target property of
                    Some target \<Rightarrow> (if target \<noteq> [] then [target] else [])
                  | None \<Rightarrow> [])
            else [])) (propertiesOf schema))"

fun visit :: "nat \<Rightarrow> SchemaCollection \<Rightarrow> string \<Rightarrow> SortState \<Rightarrow> SortState option"
  and visitEach :: "nat \<Rightarrow> SchemaCollection \<Rightarrow> string list \<Rightarrow> SortState \<Rightarrow> SortState option"
where
  "visit 0 schemas schemaName st = None"
| "visit (Suc fuel) schemas schemaName st =
     (if schemaName \<in> ts_visited st then Some st
      else if schemaName \<in> ts_visiting st then Some st
      else
        (let st1 = st\<lparr>ts_visiting := insert schemaName (ts_visiting st)\<rparr>
         in case map_of schemas schemaName of
              None \<Rightarrow> Some st1
            | Some schema \<Rightarrow>
                (case visitEach fuel schemas (dependencyTargets schema) st1 of
                   None \<Rightarrow> None
                 | Some st2 \<Rightarrow>
                     Some (st2\<lparr>ts_visiting := ts_visiting st2 - {schemaName},
                               ts_visited := insert schemaName (ts_visited st2),
                               ts_sorted := ts_sorted st2 @ [schema]\<rparr>))))"
| "visitEach fuel schemas [] st = Some st"
| "visitEach fuel schemas (schemaName # rest) st =
     (case visit fuel schemas schemaName st of
        None \<Rightarrow> None
      | Some st' \<Rightarrow> visitEach fuel schemas rest st')"

definition topologicalSort :: "SchemaCollection \<Rightarrow> LoadedSchema list option" where
  "topologicalSort schemas =
     map_option ts_sorted
       (visitEach (Suc (length schemas)) schemas (map fst schemas)
          \<lparr>ts_sorted = [], ts_visited = {}, ts_visiting = {}\<rparr>)"

text \<open>
  \<open>generateMigrations\<close>. The version counter, the list of migrations and the set of
  created pivot names are the state of the two loops.
\<close>

record GenState =
  g_migrations :: "SqlMigration list"
  g_version :: int
  g_createdPivots :: "string set"

definition tableMigration ::
  "ResolvedSqlOptions \<Rightarrow> int \<Rightarrow> SqlTable \<Rightarrow> MigrationType \<Rightarrow> SqlMigration" where
  "tableMigration resolved v table kind =
     \<lparr>m_version = v,
      m_name = ''create_'' @ t_name table,
      m_fileName = generateFileName v (''create_'' @ t_name table) (r_versionPadding resolved),
      m_content = generateCreateTableSql table resolved,
      m_tables = [t_name table],
      m_type = kind\<rparr>"

definition emitCreate ::
  "ResolvedSqlOptions \<Rightarrow> SchemaCollection \<Rightarrow> GenState \<Rightarrow> LoadedSchema \<Rightarrow> GenState" where
  "emitCreate resolved schemas st schema =
     (let table = schemaToTable schema schemas resolved
      in st\<lparr>g_migrations := g_migrations st @ [tableMigration resolved (g_version st) table create],
            g_version := increment (g_version st)\<rparr>)"

definition emitPivot :: "ResolvedSqlOptions \<Rightarrow> SqlTable option \<Rightarrow> GenState \<Rightarrow> GenState" where
  "emitPivot resolved pivotTable st =
     (case pivotTable of
        None \<Rightarrow> st
      | Some table \<Rightarrow>
          (if t_name table \<in> g_createdPivots st then st
           else st\<lparr>g_createdPivots := insert (t_name table) (g_createdPivots st),
                   g_migrations := g_migrations st @ [tableMigration resolved (g_version st) table pivot],
                   g_version := increment (g_version st)\<rparr>))"

definition pivotStep ::
  "ResolvedSqlOptions \<Rightarrow> SchemaCollection \<Rightarrow> LoadedSchema \<Rightarrow> GenState
   \<Rightarrow> string \<times> PropertyDefinition \<Rightarrow> GenState" where
  "pivotStep resolved schemas schema st entry =
     emitPivot resolved (generateMorphPivotTable schema (fst entry) (snd entry) schemas resolved)
       (emitPivot resolved (generatePivotTable schema (fst entry) (snd entry) schemas resolved) st)"

definition pivotPass ::
  "ResolvedSqlOptions \<Rightarrow> SchemaCollection \<Rightarrow> GenState \<Rightarrow> LoadedSchema list \<Rightarrow> GenState" where
  "pivotPass resolved schemas st sortedSchemas =
     foldl (\<lambda>st' schema. foldl (pivotStep resolved schemas schema) st' (propertiesOf schema))
       st sortedSchemas"

definition objectSchemas :: "SchemaCollection \<Rightarrow> SchemaCollection" where
  "objectSchemas schemas = filter (\<lambda>entry. s_kind (snd entry) \<noteq> Some ''enum'') schemas"

text \<open>
  The result is \<open>None\<close> when the run does not return, \<open>Some (Inl e)\<close> when it throws
  \<open>e\<close>, and \<open>Some (Inr ms)\<close> when it returns the migrations \<open>ms\<close>.
\<close>

definition generateMigrations ::
  "SchemaCollection \<Rightarrow> SqlGeneratorOptions option \<Rightarrow> (error + SqlMigration list) option" where
  "generateMigrations schemas options =
     (let resolved = resolveOptions options
      in case validateSchemaCompatibility schemas (r_dialect resolved) of
           Some e \<Rightarrow> Some (Inl e)
         | None \<Rightarrow>
            (case topologicalSort (objectSchemas schemas) of
               None \<Rightarrow> None
             | Some sortedSchemas \<Rightarrow>
                 (let st0 = \<lparr>g_migrations = [], g_version = r_startVersion resolved, g_createdPivots = {}\<rparr>;
                      st1 = foldl (emitCreate resolved schemas) st0 sortedSchemas;
                      st2 = pivotPass resolved schemas st1 sortedSchemas
                  in Some (Inr (g_migrations st2)))))"

definition generateMigrationFromSchema ::
  "LoadedSchema \<Rightarrow> SchemaCollection \<Rightarrow> SqlGeneratorOptions option \<Rightarrow> SqlMigration" where
  "generateMigrationFromSchema schema allSchemas options =
     (let resolved = resolveOptions options;
          v = (case Option.bind options o_version of Some n \<Rightarrow> n | None \<Rightarrow> r_startVersion resolved)
      in tableMigration resolved v (schemaToTable schema allSchemas resolved) create)"

definition generateDropMigration :: "string \<Rightarrow> SqlGeneratorOptions option \<Rightarrow> SqlMigration" where
  "generateDropMigration tableName options =
     (let resolved = resolveOptions options;
          v = (case Option.bind options o_version of Some n \<Rightarrow> n | None \<Rightarrow> r_startVersion resolved);
          isTableName = (strIncludes tableName ''_'' \<or> endsWith tableName ''s''
                         \<or> endsWith tableName ''es'');
          snakeTable = (if isTableName then tableName else toTableName tableName);
          dropSql = formatDropTable snakeTable (r_dialect resolved) True True
      in \<lparr>m_version = v,
          m_name = ''drop_'' @ snakeTable,
          m_fileName = generateFileName v (''drop_'' @ snakeTable) (r_versionPadding resolved),
          m_content = join nl [''-- Migration: Drop '' @ snakeTable @ '' table'',
                               ''-- Generated by @famgia/omnify-sql'', [], dropSql],
          m_tables = [snakeTable],
          m_type = drop\<rparr>)"

definition getMigrationPath :: "SqlMigration \<Rightarrow> string option \<Rightarrow> string" where
  "getMigrationPath migration basePath =
     (case basePath of Some b \<Rightarrow> b | None \<Rightarrow> ''migrations'') @ ''/'' @ m_fileName migration"

section \<open>Example schemas\<close>

text \<open>
  The schemas used by the examples below, built as the test-suite builds them: only
  the fields that are given are present.
\<close>

definition newProperty :: "string \<Rightarrow> PropertyDefinition" where
  "newProperty type =
     \<lparr>p_type = type, p_nullable = None, p_unique = None, p_default = None,
      p_displayName = None, p_length = None, p_precision = None, p_scale = None,
      p_enum = None, p_options = None, p_relation = None, p_target = None,
      p_targets = None, p_onDelete = None, p_onUpdate = None, p_joinTable = None\<rparr>"

definition association :: "string \<Rightarrow> string \<Rightarrow> PropertyDefinition" where
  "association relation target =
     (newProperty ''Association'')\<lparr>p_relation := Some relation, p_target := Some target\<rparr>"

definition createSchema :: "string \<Rightarrow> (string \<times> PropertyDefinition) list \<Rightarrow> LoadedSchema" where
  "createSchema name props =
     \<lparr>s_name = name, s_kind = Some ''object'', s_displayName = None,
      s_properties = Some props, s_options = None\<rparr>"

definition dialectOptions :: "SqlDialect \<Rightarrow> SqlGeneratorOptions option" where
  "dialectOptions dialect =
     Some \<lparr>o_dialect = Some dialect, o_ifNotExists = None, o_generateDown = None,
           o_startVersion = None, o_versionPadding = None, o_version = None\<rparr>"

text \<open>A single entity \<open>User\<close> with one \<open>String\<close> property \<open>name\<close>.\<close>

definition userSchemas :: SchemaCollection where
  "userSchemas = [(''User'', createSchema ''User'' [(''name'', newProperty ''String'')])]"

definition userSql :: string where
  "userSql = join nl
    [''-- Migration: Create users table'',
     ''-- Generated by @famgia/omnify-sql'',
     [],
     ''CREATE TABLE IF NOT EXISTS `users` ('',
     ''  `id` BIGINT UNSIGNED AUTO_INCREMENT PRIMARY KEY,'',
     ''  `name` VARCHAR(255) NOT NULL,'',
     ''  `created_at` TIMESTAMP NULL,'',
     ''  `updated_at` TIMESTAMP NULL'',
     '') ENGINE=InnoDB DEFAULT CHARSET=utf8mb4 COLLATE=utf8mb4_unicode_ci;'',
     [],
     ''-- Down migration'',
     ''-- DROP TABLE IF EXISTS `users`;'']"

definition userMigration :: SqlMigration where
  "userMigration =
     \<lparr>m_version = 1, m_name = ''create_users'', m_fileName = ''0001_create_users.sql'',
      m_content = userSql, m_tables = [''users''], m_type = create\<rparr>"

text \<open>An entity with an \<open>Enum\<close> property that lists its values.\<close>

definition enumSchemas :: SchemaCollection where
  "enumSchemas =
     [(''Test'', createSchema ''Test''
        [(''status'', (newProperty ''Enum'')\<lparr>p_enum := Some (EnumValues [''draft'', ''published''])\<rparr>)])]"

definition enumSql :: string where
  \<open>enumSql = join nl
    [''-- Migration: Create tests table'',
     ''-- Generated by @famgia/omnify-sql'',
     [],
     ''CREATE TABLE IF NOT EXISTS "tests" ('',
     ''  "id" BIGSERIAL PRIMARY KEY,'',
     ''  "status" status_enum NOT NULL,'',
     ''  "created_at" TIMESTAMP NULL,'',
     ''  "updated_at" TIMESTAMP NULL'',
     '');'',
     [],
     ''-- Down migration'',
     ''-- DROP TABLE IF EXISTS "tests" CASCADE;'']\<close>

definition enumMigration :: SqlMigration where
  "enumMigration =
     \<lparr>m_version = 1, m_name = ''create_tests'', m_fileName = ''0001_create_tests.sql'',
      m_content = enumSql, m_tables = [''tests''], m_type = create\<rparr>"

text \<open>A polymorphic association whose declared nullability is \<open>false\<close>.\<close>

definition commentable :: PropertyDefinition where
  "commentable =
     (newProperty ''Association'')
       \<lparr>p_relation := Some ''MorphTo'', p_targets := Some [''Post'', ''Video''],
        p_nullable := Some False\<rparr>"

text \<open>
  A schema declares a polymorphic many-to-many association to a target when one of its
  properties is such an association.
\<close>

definition declaresMorphToMany :: "string \<Rightarrow> LoadedSchema \<Rightarrow> bool" where
  "declaresMorphToMany target schema =
     (\<exists>entry \<in> set (propertiesOf schema). isMorphToManyTo target (snd entry))"

text \<open>Two owners of tags, the second with UUID identity, and the tag entity.\<close>

definition tags :: PropertyDefinition where
  "tags = association ''MorphToMany'' ''Tag''"

definition uuidOptions :: SchemaOptions where
  "uuidOptions =
     \<lparr>so_id = None, so_idType = Some ''Uuid'', so_timestamps = None, so_softDelete = None,
      so_indexes = None, so_unique = None\<rparr>"

definition postSchema :: LoadedSchema where
  "postSchema = createSchema ''Post'' [(''tags'', tags)]"

definition videoSchema :: LoadedSchema where
  "videoSchema = (createSchema ''Video'' [(''tags'', tags)])\<lparr>s_options := Some uuidOptions\<rparr>"

definition tagSchema :: LoadedSchema where
  "tagSchema = createSchema ''Tag'' [(''name'', newProperty ''String'')]"

definition taggedSchemas :: SchemaCollection where
  "taggedSchemas = [(''Post'', postSchema), (''Video'', videoSchema), (''Tag'', tagSchema)]"

text \<open>
  Notions used to state the properties of the sort. The state of the sort covers the
  visited names when the result list holds exactly the schemas of the visited names.
  It is ordered when every visited name has its schema in the result list, after the
  schemas of all its dependency targets that are in the collection.
\<close>

definition sortedCovers :: "SchemaCollection \<Rightarrow> SortState \<Rightarrow> bool" where
  "sortedCovers schemas st \<longleftrightarrow>
     set (ts_sorted st) = {s. \<exists>k \<in> ts_visited st. map_of schemas k = Some s}"

definition sortedOrdered :: "SchemaCollection \<Rightarrow> SortState \<Rightarrow> bool" where
  "sortedOrdered schemas st \<longleftrightarrow>
     (\<forall>k \<in> ts_visited st. \<exists>i < length (ts_sorted st).
        map_of schemas k = Some (ts_sorted st ! i)
        \<and> (\<forall>d \<in> set (dependencyTargets (ts_sorted st ! i)). \<forall>sd.
              map_of schemas d = Some sd \<longrightarrow> (\<exists>j < i. ts_sorted st ! j = sd)))"

text \<open>
  The dependency relation of a collection: a name is related to every target its schema
  owns a foreign key toward.
\<close>

definition dependencies :: "SchemaCollection \<Rightarrow> (string \<times> string) set" where
  "dependencies schemas =
     {(a, b). \<exists>sa. map_of schemas a = Some sa \<and> b \<in> set (dependencyTargets sa)}"
text \<open>
  Notions used to state the properties of the generator: a list of migrations is
  numbered from a version when its versions are that version and the values the counter
  takes after it, in order; the state of the generator is consistent when its counter
  holds the next of these values and every file name is built from the version and the
  name of its migration; the pivot tables of a list of migrations are the table lists of
  its pivot migrations.
\<close>

definition numberedFrom :: "int \<Rightarrow> SqlMigration list \<Rightarrow> bool" where
  "numberedFrom v0 ms \<longleftrightarrow> map m_version ms = map (\<lambda>i. (increment ^^ i) v0) [0..<length ms]"

definition consistent :: "ResolvedSqlOptions \<Rightarrow> GenState \<Rightarrow> bool" where
  "consistent resolved st \<longleftrightarrow>
     numberedFrom (r_startVersion resolved) (g_migrations st)
     \<and> g_version st = (increment ^^ length (g_migrations st)) (r_startVersion resolved)
     \<and> (\<forall>m \<in> set (g_migrations st).
           m_fileName m = generateFileName (m_version m) (m_name m) (r_versionPadding resolved))"

definition pivotTables :: "SqlMigration list \<Rightarrow> string list list" where
  "pivotTables ms = map m_tables (filter (\<lambda>m. m_type m = pivot) ms)"

definition pivotsRecorded :: "GenState \<Rightarrow> bool" where
  "pivotsRecorded st \<longleftrightarrow>
     distinct (pivotTables (g_migrations st))
     \<and> set (pivotTables (g_migrations st)) = (\<lambda>n. [n]) ` g_createdPivots st"







text \<open>
  Comments belong to posts and posts to users: the collection of the test-suite's
  ordering test, and options with a start version and a padding width.
\<close>

definition blogComment :: LoadedSchema where
  "blogComment = createSchema ''Comment'' [(''post'', association ''ManyToOne'' ''Post'')]"

definition blogPost :: LoadedSchema where
  "blogPost = createSchema ''Post'' [(''author'', association ''ManyToOne'' ''User'')]"

definition blogUser :: LoadedSchema where
  "blogUser = createSchema ''User'' []"

definition blogSchemas :: SchemaCollection where
  "blogSchemas = [(''Comment'', blogComment), (''Post'', blogPost), (''User'', blogUser)]"

text \<open>A rank that decreases along the dependencies of this collection.\<close>

definition blogRank :: "string \<Rightarrow> nat" where
  "blogRank k = (if k = ''User'' then 0 else if k = ''Post'' then 1 else 2)"

definition versionOptions :: "SqlGeneratorOptions option" where
  "versionOptions =
     Some \<lparr>o_dialect = Some mysql, o_ifNotExists = None, o_generateDown = None,
           o_startVersion = Some 10, o_versionPadding = Some 6, o_version = None\<rparr>"

text \<open>Options whose start version is \<open>2 ^ 53\<close>.\<close>

definition largeVersionOptions :: "SqlGeneratorOptions option" where
  "largeVersionOptions =
     Some \<lparr>o_dialect = Some mysql, o_ifNotExists = None, o_generateDown = None,
           o_startVersion = Some 9007199254740992, o_versionPadding = None, o_version = None\<rparr>"











section \<open>Properties of the generated text\<close>

lemma sublist_single: "sublist [c] s \<longleftrightarrow> c \<in> set s"
  by (induction s) (auto simp: sublist_Cons_right)

lemma userMigration_generated:
  "generateMigrations userSchemas (dialectOptions mysql) = Some (Inr [userMigration])"
  by code_simp

lemma enumMigration_generated:
  "generateMigrations enumSchemas (dialectOptions postgresql) = Some (Inr [enumMigration])"
  by code_simp

text \<open>
  C6, as stated, fails: for the single entity \<open>User\<close> under MySQL the generated text
  does not contain the primary-key line with a \<open>NOT NULL\<close> clause.
\<close>

theorem user_id_line_has_no_not_null:
  "generateMigrations userSchemas (dialectOptions mysql) = Some (Inr [userMigration])
   \<and> \<not> sublist ''`id` BIGINT UNSIGNED NOT NULL AUTO_INCREMENT PRIMARY KEY''
         (m_content userMigration)"
proof -
  have "\<not> sublist ''`id` BIGINT UNSIGNED NOT NULL AUTO_INCREMENT PRIMARY KEY''
          (m_content userMigration)"
    by code_simp
  with userMigration_generated show ?thesis by simp
qed

text \<open>
  C6, amended: for the options \<open>{ dialect: 'mysql' }\<close> and the single entity \<open>User\<close>
  with the \<open>String\<close> property \<open>name\<close>, the generated text contains the line
  \<open>`id` BIGINT UNSIGNED AUTO_INCREMENT PRIMARY KEY\<close> (a primary-key column carries no
  null clause), the lines for \<open>name\<close>, \<open>created_at\<close> and \<open>updated_at\<close>, and the
  \<open>CREATE TABLE\<close> statement, which is part of the text, ends with the engine and
  charset clause.
\<close>

theorem user_create_table_text:
  "generateMigrations userSchemas (dialectOptions mysql) = Some (Inr [userMigration])
   \<and> sublist ''`id` BIGINT UNSIGNED AUTO_INCREMENT PRIMARY KEY'' (m_content userMigration)
   \<and> sublist ''`name` VARCHAR(255) NOT NULL'' (m_content userMigration)
   \<and> sublist ''`created_at` TIMESTAMP NULL'' (m_content userMigration)
   \<and> sublist ''`updated_at` TIMESTAMP NULL'' (m_content userMigration)
   \<and> sublist (formatCreateTable
                (schemaToTable (createSchema ''User'' [(''name'', newProperty ''String'')])
                   userSchemas (resolveOptions (dialectOptions mysql))) mysql True)
         (m_content userMigration)
   \<and> suffix ''ENGINE=InnoDB DEFAULT CHARSET=utf8mb4 COLLATE=utf8mb4_unicode_ci;''
         (formatCreateTable
            (schemaToTable (createSchema ''User'' [(''name'', newProperty ''String'')])
               userSchemas (resolveOptions (dialectOptions mysql))) mysql True)"
proof -
  have "sublist ''`id` BIGINT UNSIGNED AUTO_INCREMENT PRIMARY KEY'' (m_content userMigration)"
    by code_simp
  moreover have "sublist ''`name` VARCHAR(255) NOT NULL'' (m_content userMigration)"
    by code_simp
  moreover have "sublist ''`created_at` TIMESTAMP NULL'' (m_content userMigration)"
    by code_simp
  moreover have "sublist ''`updated_at` TIMESTAMP NULL'' (m_content userMigration)"
    by code_simp
  moreover have "sublist (formatCreateTable
                (schemaToTable (createSchema ''User'' [(''name'', newProperty ''String'')])
                   userSchemas (resolveOptions (dialectOptions mysql))) mysql True)
         (m_content userMigration)"
    by code_simp
  moreover have "suffix ''ENGINE=InnoDB DEFAULT CHARSET=utf8mb4 COLLATE=utf8mb4_unicode_ci;''
         (formatCreateTable
            (schemaToTable (createSchema ''User'' [(''name'', newProperty ''String'')])
               userSchemas (resolveOptions (dialectOptions mysql))) mysql True)"
    by code_simp
  ultimately show ?thesis using userMigration_generated by simp
qed

theorem user_create_table_text_witness:
  "sublist ''AUTO_INCREMENT PRIMARY KEY'' (m_content userMigration)"
proof -
  have "sublist ''AUTO_INCREMENT PRIMARY KEY'' ''`id` BIGINT UNSIGNED AUTO_INCREMENT PRIMARY KEY''"
    by code_simp
  with user_create_table_text show ?thesis
    by (meson sublist_order.order_trans)
qed

text \<open>
  C5 at a concrete input: under PostgreSQL the column of an \<open>Enum\<close> property is
  declared with the type name \<open>status_enum\<close>, the statement that creates this type is
  computed by \<open>getEnumType\<close>, and the generated text does not contain it.
\<close>

theorem enum_type_is_never_created:
  "generateMigrations enumSchemas (dialectOptions postgresql) = Some (Inr [enumMigration])
   \<and> sublist (dq @ ''status'' @ dq @ '' status_enum NOT NULL'') (m_content enumMigration)
   \<and> snd (getEnumType [''draft'', ''published''] postgresql (Some ''status_enum''))
       = Some (''CREATE TYPE status_enum AS ENUM ('' @ sq @ ''draft'' @ sq @ '', ''
               @ sq @ ''published'' @ sq @ '');'')
   \<and> \<not> sublist ''CREATE TYPE'' (m_content enumMigration)"
proof -
  have "sublist (dq @ ''status'' @ dq @ '' status_enum NOT NULL'') (m_content enumMigration)"
    by code_simp
  moreover have "snd (getEnumType [''draft'', ''published''] postgresql (Some ''status_enum''))
       = Some (''CREATE TYPE status_enum AS ENUM ('' @ sq @ ''draft'' @ sq @ '', ''
               @ sq @ ''published'' @ sq @ '');'')"
    by code_simp
  moreover have "\<not> sublist ''CREATE TYPE'' (m_content enumMigration)"
    by code_simp
  ultimately show ?thesis using enumMigration_generated by simp
qed

section \<open>Polymorphic columns\<close>

text \<open>
  C9: for a \<open>MorphTo\<close> association with a non-empty target list, two columns are
  generated, named \<open>_type\<close> and \<open>_id\<close> after the property, and both are nullable
  whatever nullability the property declares; they are the columns the table of a
  schema with this property receives for it.
\<close>

theorem morphTo_columns_are_nullable:
  assumes "p_type p = ''Association''" and "p_relation p = Some ''MorphTo''"
    and "p_targets p = Some targets" and "targets \<noteq> []"
  shows "\<exists>typeColumn idColumn index.
           generatePolymorphicColumns name p dialect allSchemas
             = Some ([typeColumn, idColumn], index)
           \<and> c_name typeColumn = toColumnName name @ ''_type''
           \<and> c_name idColumn = toColumnName name @ ''_id''
           \<and> c_nullable typeColumn \<and> c_nullable idColumn
           \<and> fst (propertyParts schema dialect allSchemas (name, p)) = [typeColumn, idColumn]"
  using assms
  by (simp add: generatePolymorphicColumns_def propertyParts_def propertyToColumn_def
      generateForeignKey_def plainColumn_def Let_def)

theorem morphTo_columns_are_nullable_witness:
  "p_type commentable = ''Association'' \<and> p_relation commentable = Some ''MorphTo''
   \<and> p_targets commentable = Some [''Post'', ''Video''] \<and> p_nullable commentable = Some False
   \<and> (\<exists>typeColumn idColumn index.
         generatePolymorphicColumns ''commentable'' commentable mysql []
           = Some ([typeColumn, idColumn], index)
         \<and> c_name typeColumn = ''commentable_type'' \<and> c_name idColumn = ''commentable_id''
         \<and> c_nullable typeColumn \<and> c_nullable idColumn)"
proof -
  have h: "p_type commentable = ''Association''" "p_relation commentable = Some ''MorphTo''"
    "p_targets commentable = Some [''Post'', ''Video'']" "[''Post'', ''Video''] \<noteq> ([] :: string list)"
    "p_nullable commentable = Some False"
    by (simp_all add: commentable_def newProperty_def)
  have n: "toColumnName ''commentable'' = ''commentable''"
    by code_simp
  from morphTo_columns_are_nullable [OF h(1-4), of "''commentable''" mysql "[]"
      "createSchema ''Comment'' []"]
  obtain typeColumn idColumn index where
    "generatePolymorphicColumns ''commentable'' commentable mysql []
       = Some ([typeColumn, idColumn], index)"
    "c_name typeColumn = toColumnName ''commentable'' @ ''_type''"
    "c_name idColumn = toColumnName ''commentable'' @ ''_id''"
    "c_nullable typeColumn" "c_nullable idColumn"
    by blast
  with n h show ?thesis by simp
qed

section \<open>Drop migrations\<close>

text \<open>
  C10: \<open>generateDropMigration\<close> uses its input verbatim as the table name when the
  input contains an underscore or ends in \<open>s\<close> or \<open>es\<close>, and converts it with
  \<open>toTableName\<close> (snake case, plural) only otherwise.
\<close>

theorem generateDropMigration_table:
  "m_tables (generateDropMigration tableName options) =
     [if CHR ''_'' \<in> set tableName \<or> suffix ''s'' tableName \<or> suffix ''es'' tableName
      then tableName else toTableName tableName]
   \<and> m_name (generateDropMigration tableName options) = ''drop_'' @ hd (m_tables (generateDropMigration tableName options))
   \<and> sublist (formatDropTable (hd (m_tables (generateDropMigration tableName options)))
                (r_dialect (resolveOptions options)) True True)
         (m_content (generateDropMigration tableName options))"
proof -
  let ?t = "if CHR ''_'' \<in> set tableName \<or> suffix ''s'' tableName \<or> suffix ''es'' tableName
            then tableName else toTableName tableName"
  have c: "strIncludes tableName ''_'' \<longleftrightarrow> CHR ''_'' \<in> set tableName"
    by (simp add: strIncludes_def sublist_single)
  have t: "m_tables (generateDropMigration tableName options) = [?t]"
    by (simp add: generateDropMigration_def Let_def c endsWith_def)
  have n: "m_name (generateDropMigration tableName options) = ''drop_'' @ ?t"
    by (simp add: generateDropMigration_def Let_def c endsWith_def)
  have "m_content (generateDropMigration tableName options) =
          (''-- Migration: Drop '' @ ?t @ '' table'' @ nl
           @ ''-- Generated by @famgia/omnify-sql'' @ nl @ nl)
          @ formatDropTable ?t (r_dialect (resolveOptions options)) True True"
    by (simp add: generateDropMigration_def Let_def c endsWith_def)
  then have "suffix (formatDropTable ?t (r_dialect (resolveOptions options)) True True)
               (m_content (generateDropMigration tableName options))"
    by (metis suffixI)
  then have "sublist (formatDropTable ?t (r_dialect (resolveOptions options)) True True)
               (m_content (generateDropMigration tableName options))"
    by (rule suffix_imp_sublist)
  with t n show ?thesis by simp
qed

theorem generateDropMigration_table_witness:
  "m_tables (generateDropMigration ''Bus'' None) = [''Bus'']
   \<and> toTableName ''Bus'' = ''buses''
   \<and> m_tables (generateDropMigration ''user_roles'' None) = [''user_roles'']
   \<and> m_tables (generateDropMigration ''User'' None) = [''users'']"
proof -
  have "suffix ''s'' ''Bus''" "CHR ''_'' \<in> set ''user_roles''"
    "\<not> (CHR ''_'' \<in> set ''User'' \<or> suffix ''s'' ''User'' \<or> suffix ''es'' ''User'')"
    by (simp_all add: suffix_to_prefix)
  moreover have "toTableName ''Bus'' = ''buses''" "toTableName ''User'' = ''users''"
    by code_simp+
  ultimately show ?thesis
    using generateDropMigration_table [of "''Bus''" None]
      generateDropMigration_table [of "''user_roles''" None]
      generateDropMigration_table [of "''User''" None]
    by simp
qed

section \<open>Pivot tables\<close>

lemma morphTargets_inner:
  "set (foldl (\<lambda>acc' prop. if isMorphToManyTo target prop \<and> k \<notin> set acc'
                             then acc' @ [k] else acc') acc props)
     = set acc \<union> (if \<exists>prop \<in> set props. isMorphToManyTo target prop then {k} else {})
   \<and> (distinct acc \<longrightarrow>
        distinct (foldl (\<lambda>acc' prop. if isMorphToManyTo target prop \<and> k \<notin> set acc'
                                       then acc' @ [k] else acc') acc props))"
  by (induction props arbitrary: acc) auto

lemma morphTargetsStep_set:
  "set (morphTargetsStep src target acc entry)
     = set acc \<union> (if fst entry \<noteq> src \<and> declaresMorphToMany target (snd entry)
                     then {fst entry} else {})"
  using morphTargets_inner [of target "fst entry" acc "map snd (propertiesOf (snd entry))"]
  by (auto simp: morphTargetsStep_def declaresMorphToMany_def)

lemma morphTargetsStep_distinct:
  "distinct acc \<Longrightarrow> distinct (morphTargetsStep src target acc entry)"
  using morphTargets_inner [of target "fst entry" acc "map snd (propertiesOf (snd entry))"]
  by (simp add: morphTargetsStep_def)

lemma morphTargets_fold:
  "set (foldl (morphTargetsStep src target) acc schemas)
     = set acc \<union> {k. k \<noteq> src \<and> (\<exists>s. (k, s) \<in> set schemas \<and> declaresMorphToMany target s)}
   \<and> (distinct acc \<longrightarrow> distinct (foldl (morphTargetsStep src target) acc schemas))"
proof (induction schemas arbitrary: acc)
  case Nil
  show ?case by simp
next
  case (Cons entry schemas)
  obtain k s where e: "entry = (k, s)" by (cases entry)
  show ?case
    using Cons.IH [of "morphTargetsStep src target acc entry"]
      morphTargetsStep_set [of src target acc entry]
      morphTargetsStep_distinct [of acc src target entry]
    by (auto simp: e)
qed

lemma morphTargets_owners:
  assumes "map_of allSchemas (s_name src) = Some src" and "declaresMorphToMany target src"
  shows "set (morphTargets src target allSchemas)
           = {k. \<exists>s. (k, s) \<in> set allSchemas \<and> declaresMorphToMany target s}"
    and "distinct (morphTargets src target allSchemas)"
proof -
  have "(s_name src, src) \<in> set allSchemas"
    using assms(1) by (rule map_of_SomeD)
  then show "set (morphTargets src target allSchemas)
           = {k. \<exists>s. (k, s) \<in> set allSchemas \<and> declaresMorphToMany target s}"
    using morphTargets_fold [of "s_name src" target "[s_name src]" allSchemas] assms(2)
    by (auto simp: morphTargets_def)
  show "distinct (morphTargets src target allSchemas)"
    using morphTargets_fold [of "s_name src" target "[s_name src]" allSchemas]
    by (simp add: morphTargets_def)
qed

lemma owners_use_uuid:
  assumes "distinct (map fst allSchemas)"
    and "set owners = {k. \<exists>s. (k, s) \<in> set allSchemas \<and> declaresMorphToMany target s}"
  shows "(\<exists>owner \<in> set owners. usesUuid (map_of allSchemas owner))
         \<longleftrightarrow> (\<exists>entry \<in> set allSchemas. declaresMorphToMany target (snd entry)
                                         \<and> idTypeOf (Some (snd entry)) = ''Uuid'')"
proof -
  have u: "usesUuid (Some s) \<longleftrightarrow> idTypeOf (Some s) = ''Uuid''" for s
    by (auto simp: usesUuid_def idTypeOf_def split: option.splits)
  have m: "map_of allSchemas k = Some s \<longleftrightarrow> (k, s) \<in> set allSchemas" for k s
    using assms(1) by (simp add: map_of_eq_Some_iff)
  show ?thesis
  proof
    assume "\<exists>owner \<in> set owners. usesUuid (map_of allSchemas owner)"
    then obtain k where k: "k \<in> set owners" "usesUuid (map_of allSchemas k)" by blast
    from k(1) assms(2) obtain s where s: "(k, s) \<in> set allSchemas" "declaresMorphToMany target s"
      by blast
    with k(2) m [of k s] u [of s] show "\<exists>entry \<in> set allSchemas.
        declaresMorphToMany target (snd entry) \<and> idTypeOf (Some (snd entry)) = ''Uuid''"
      by force
  next
    assume "\<exists>entry \<in> set allSchemas.
        declaresMorphToMany target (snd entry) \<and> idTypeOf (Some (snd entry)) = ''Uuid''"
    then obtain k s where s: "(k, s) \<in> set allSchemas" "declaresMorphToMany target s"
      "idTypeOf (Some s) = ''Uuid''" by force
    with assms(2) have "k \<in> set owners" by blast
    with s m [of k s] u [of s] show "\<exists>owner \<in> set owners. usesUuid (map_of allSchemas owner)"
      by force
  qed
qed

lemma tag_names:
  "toSnakeCase ''Tag'' = ''tag''" "toTableName ''Tag'' = ''tags''"
  "dropTrailingS ''tag'' = ''tag''" "dropTrailingS ''tagables'' = ''tagable''"
  by code_simp+

text \<open>
  C7: a \<open>MorphToMany\<close> association to \<open>Tag\<close> without a join-table name, declared by
  a schema of the collection, yields the pivot table \<open>tagables\<close>. Its three columns
  are \<open>tag_id\<close>, \<open>tagable_type\<close> and \<open>tagable_id\<close>, none nullable; the type column
  has the enum type that the dialect gives to the list of owners (under MySQL the
  inline enumeration of their names), and the owners are exactly the schemas of the
  collection that declare such an association to \<open>Tag\<close>; the id column has the UUID foreign-key type
  of the dialect if and only if one of these owners has UUID identity, and the
  integer foreign-key type otherwise; the one foreign key is on \<open>tag_id\<close>; the three
  indexes are the unique index over all three columns, the index on \<open>tag_id\<close> and
  the index over the type and id columns.
\<close>

theorem morphToMany_pivot_table:
  assumes keys: "distinct (map fst allSchemas)"
    and src: "map_of allSchemas (s_name src) = Some src"
    and entry: "(propertyName, p) \<in> set (propertiesOf src)"
    and p: "p_type p = ''Association''" "p_relation p = Some ''MorphToMany''"
      "p_target p = Some ''Tag''" "p_joinTable p = None"
    and tag: "map_of allSchemas ''Tag'' = Some tagEntity"
  shows "\<exists>t owners.
      generateMorphPivotTable src propertyName p allSchemas options = Some t
    \<and> t_name t = ''tagables''
    \<and> map c_name (t_columns t) = [''tag_id'', ''tagable_type'', ''tagable_id'']
    \<and> map c_nullable (t_columns t) = [False, False, False]
    \<and> distinct owners
    \<and> set owners = {k. \<exists>s. (k, s) \<in> set allSchemas \<and> declaresMorphToMany ''Tag'' s}
    \<and> c_type (t_columns t ! 1)
        = fst (getEnumType owners (r_dialect options) (Some ''tagable_type_enum''))
    \<and> (r_dialect options = mysql \<longrightarrow>
         c_type (t_columns t ! 1) = ''ENUM('' @ join '', '' (map (\<lambda>v. sq @ v @ sq) owners) @ '')'')
    \<and> c_type (t_columns t ! 2)
        = getForeignKeyType
            (if \<exists>entry \<in> set allSchemas. declaresMorphToMany ''Tag'' (snd entry)
                                          \<and> idTypeOf (Some (snd entry)) = ''Uuid''
             then ''Uuid'' else ''BigInt'') (r_dialect options)
    \<and> map (\<lambda>fk. (fk_columns fk, fk_referencesTable fk, fk_referencesColumns fk))
          (t_foreignKeys t) = [([''tag_id''], ''tags'', [''id''])]
    \<and> map (\<lambda>i. (i_columns i, i_unique i, i_type i)) (t_indexes t)
        = [([''tag_id'', ''tagable_type'', ''tagable_id''], True, None),
           ([''tag_id''], False, None),
           ([''tagable_type'', ''tagable_id''], False, None)]"
proof -
  let ?owners = "morphTargets src ''Tag'' allSchemas"
  have d: "declaresMorphToMany ''Tag'' src"
    using entry p by (force simp: declaresMorphToMany_def isMorphToManyTo_def)
  note o = morphTargets_owners [OF src d]
  note u = owners_use_uuid [OF keys o(1)]
  have ty: "morphIdType b dialect = getForeignKeyType (if b then ''Uuid'' else ''BigInt'') dialect"
    for b dialect
    by (cases dialect) (simp_all add: morphIdType_def getForeignKeyType_def)
  have en: "fst (getEnumType vs mysql n) = ''ENUM('' @ join '', '' (map (\<lambda>v. sq @ v @ sq) vs) @ '')''"
    for vs n
    by (simp add: getEnumType_def quotedValues_def)
  show ?thesis
    apply (rule exI [of _ "the (generateMorphPivotTable src propertyName p allSchemas options)"])
    apply (rule exI [of _ ?owners])
    using o u
    apply (simp add: generateMorphPivotTable_def p tag Let_def tag_names plainColumn_def ty en)
    done
qed

theorem morphToMany_pivot_table_witness:
  "distinct (map fst taggedSchemas)
   \<and> map_of taggedSchemas (s_name postSchema) = Some postSchema
   \<and> (''tags'', tags) \<in> set (propertiesOf postSchema)
   \<and> map_of taggedSchemas ''Tag'' = Some tagSchema
   \<and> (\<exists>t. generateMorphPivotTable postSchema ''tags'' tags taggedSchemas (resolveOptions None)
            = Some t
          \<and> t_name t = ''tagables''
          \<and> map c_name (t_columns t) = [''tag_id'', ''tagable_type'', ''tagable_id'']
          \<and> c_type (t_columns t ! 1) = ''ENUM('' @ sq @ ''Post'' @ sq @ '', '' @ sq @ ''Video'' @ sq @ '')''
          \<and> c_type (t_columns t ! 2) = ''CHAR(36)'')"
proof -
  have h: "distinct (map fst taggedSchemas)"
    "map_of taggedSchemas (s_name postSchema) = Some postSchema"
    "(''tags'', tags) \<in> set (propertiesOf postSchema)"
    "p_type tags = ''Association''" "p_relation tags = Some ''MorphToMany''"
    "p_target tags = Some ''Tag''" "p_joinTable tags = None"
    "map_of taggedSchemas ''Tag'' = Some tagSchema"
    by (simp_all add: taggedSchemas_def postSchema_def tags_def association_def newProperty_def
        createSchema_def propertiesOf_def)
  have e: "c_type (t_columns (the (generateMorphPivotTable postSchema ''tags'' tags taggedSchemas
                 (resolveOptions None))) ! 1)
           = ''ENUM('' @ sq @ ''Post'' @ sq @ '', '' @ sq @ ''Video'' @ sq @ '')''"
    by code_simp
  have i: "c_type (t_columns (the (generateMorphPivotTable postSchema ''tags'' tags taggedSchemas
                 (resolveOptions None))) ! 2) = ''CHAR(36)''"
    by code_simp
  from morphToMany_pivot_table [OF h, of "resolveOptions None"]
  obtain t where "generateMorphPivotTable postSchema ''tags'' tags taggedSchemas (resolveOptions None)
            = Some t" "t_name t = ''tagables''"
    "map c_name (t_columns t) = [''tag_id'', ''tagable_type'', ''tagable_id'']"
    by (elim exE conjE) (rule that, assumption+)
  with h e i show ?thesis by simp
qed

section \<open>The topological sort\<close>

subsection \<open>The sort returns\<close>

lemma card_unseen_less:
  assumes "finite K" and "n \<in> K" and "n \<notin> A" and "card (K - A) < Suc fuel"
  shows "card (K - insert n A) < fuel"
proof -
  have "K - insert n A = (K - A) - {n}" by blast
  moreover have "n \<in> K - A" using assms by blast
  moreover have "finite (K - A)" using assms(1) by blast
  ultimately have "card (K - insert n A) = card (K - A) - 1" "0 < card (K - A)"
    by (auto simp: card_gt_0_iff)
  with assms(4) show ?thesis by arith
qed

lemma visit_returns:
  "card (dom (map_of S) - (ts_visited st \<union> ts_visiting st)) < fuel \<Longrightarrow>
     \<exists>st'. visit fuel S n st = Some st'
       \<and> ts_visited st \<union> ts_visiting st \<subseteq> ts_visited st' \<union> ts_visiting st'"
  "card (dom (map_of S) - (ts_visited st \<union> ts_visiting st)) < fuel \<Longrightarrow>
     \<exists>st'. visitEach fuel S ns st = Some st'
       \<and> ts_visited st \<union> ts_visiting st \<subseteq> ts_visited st' \<union> ts_visiting st'"
proof (induction fuel S n st and fuel S ns st rule: visit_visitEach.induct)
  case (1 schemas schemaName st)
  then show ?case by simp
next
  case (2 fuel schemas schemaName st)
  show ?case
  proof (cases "schemaName \<in> ts_visited st \<or> schemaName \<in> ts_visiting st")
    case True
    then show ?thesis by auto
  next
    case False
    let ?st1 = "st\<lparr>ts_visiting := insert schemaName (ts_visiting st)\<rparr>"
    show ?thesis
    proof (cases "map_of schemas schemaName")
      case None
      with False show ?thesis by (auto simp: Let_def)
    next
      case (Some schema)
      have k: "schemaName \<in> dom (map_of schemas)" using Some by (simp add: domI)
      have u: "schemaName \<notin> ts_visited st \<union> ts_visiting st" using False by simp
      have "card (dom (map_of schemas) - insert schemaName (ts_visited st \<union> ts_visiting st)) < fuel"
        by (rule card_unseen_less [OF finite_dom_map_of k u "2.prems"])
      then have "card (dom (map_of schemas) - (ts_visited ?st1 \<union> ts_visiting ?st1)) < fuel"
        by simp
      with "2.IH" [OF _ _ refl Some] False
      obtain st2 where st2: "visitEach fuel schemas (dependencyTargets schema) ?st1 = Some st2"
        "ts_visited ?st1 \<union> ts_visiting ?st1 \<subseteq> ts_visited st2 \<union> ts_visiting st2"
        by auto
      from st2(2) have "ts_visited st \<union> ts_visiting st
          \<subseteq> insert schemaName (ts_visited st2) \<union> (ts_visiting st2 - {schemaName})"
        by auto
      with False Some st2(1) show ?thesis by (simp add: Let_def)
    qed
  qed
next
  case (3 fuel schemas st)
  then show ?case by simp
next
  case (4 fuel schemas schemaName rest st)
  from "4.IH"(1) [OF "4.prems"] obtain st1 where st1: "visit fuel schemas schemaName st = Some st1"
    "ts_visited st \<union> ts_visiting st \<subseteq> ts_visited st1 \<union> ts_visiting st1"
    by blast
  have "dom (map_of schemas) - (ts_visited st1 \<union> ts_visiting st1)
          \<subseteq> dom (map_of schemas) - (ts_visited st \<union> ts_visiting st)"
    using st1(2) by blast
  then have "card (dom (map_of schemas) - (ts_visited st1 \<union> ts_visiting st1))
          \<le> card (dom (map_of schemas) - (ts_visited st \<union> ts_visiting st))"
    by (intro card_mono) (auto simp: finite_dom_map_of)
  with "4.prems" have "card (dom (map_of schemas) - (ts_visited st1 \<union> ts_visiting st1)) < fuel"
    by simp
  from "4.IH"(2) [OF st1(1) this] obtain st' where st': "visitEach fuel schemas rest st1 = Some st'"
    "ts_visited st1 \<union> ts_visiting st1 \<subseteq> ts_visited st' \<union> ts_visiting st'"
    by blast
  from st1(2) st'(2) have "ts_visited st \<union> ts_visiting st \<subseteq> ts_visited st' \<union> ts_visiting st'"
    by (rule subset_trans)
  with st1(1) st'(1) show ?case by simp
qed

lemma topologicalSort_returns: "\<exists>sortedSchemas. topologicalSort S = Some sortedSchemas"
proof -
  have "card (dom (map_of S)) \<le> length S"
    by (metis card_length dom_map_of_conv_image_fst length_map list.set_map)
  then have "card (dom (map_of S)
               - (ts_visited \<lparr>ts_sorted = [], ts_visited = {}, ts_visiting = {}\<rparr>
                  \<union> ts_visiting \<lparr>ts_sorted = [], ts_visited = {}, ts_visiting = {}\<rparr>))
             < Suc (length S)"
    by simp
  from visit_returns(2) [OF this] show ?thesis
    by (auto simp: topologicalSort_def)
qed

subsection \<open>What a visit changes\<close>

text \<open>
  A visit only adds to the visited names and to the result list; among the names of the
  collection, the names being visited are the same before and after; a name of the
  collection is visited afterwards unless it is being visited; and a state that covers
  its visited names still does so afterwards.
\<close>

lemma sortedCovers_push:
  assumes "sortedCovers S st2" and "map_of S n = Some schema"
  shows "sortedCovers S (st2\<lparr>ts_visiting := ts_visiting st2 - {n},
                             ts_visited := insert n (ts_visited st2),
                             ts_sorted := ts_sorted st2 @ [schema]\<rparr>)"
  using assms by (auto simp: sortedCovers_def)

lemma visit_effect:
  "visit fuel S n st = Some st' \<Longrightarrow>
     ts_visited st \<subseteq> ts_visited st'
     \<and> ts_visiting st' \<inter> dom (map_of S) = ts_visiting st \<inter> dom (map_of S)
     \<and> (n \<in> dom (map_of S) \<longrightarrow> n \<in> ts_visited st' \<or> n \<in> ts_visiting st)
     \<and> (\<exists>zs. ts_sorted st' = ts_sorted st @ zs)
     \<and> (sortedCovers S st \<longrightarrow> sortedCovers S st')"
  "visitEach fuel S ns st = Some st' \<Longrightarrow>
     ts_visited st \<subseteq> ts_visited st'
     \<and> ts_visiting st' \<inter> dom (map_of S) = ts_visiting st \<inter> dom (map_of S)
     \<and> (\<forall>n \<in> set ns. n \<in> dom (map_of S) \<longrightarrow> n \<in> ts_visited st' \<or> n \<in> ts_visiting st)
     \<and> (\<exists>zs. ts_sorted st' = ts_sorted st @ zs)
     \<and> (sortedCovers S st \<longrightarrow> sortedCovers S st')"
proof (induction fuel S n st and fuel S ns st arbitrary: st' and st'
    rule: visit_visitEach.induct)
  case (1 schemas schemaName st)
  then show ?case by simp
next
  case (2 fuel schemas schemaName st)
  show ?case
  proof (cases "schemaName \<in> ts_visited st \<or> schemaName \<in> ts_visiting st")
    case True
    with "2.prems" have "st' = st" by (auto split: if_splits)
    with True show ?thesis by auto
  next
    case False
    let ?st1 = "st\<lparr>ts_visiting := insert schemaName (ts_visiting st)\<rparr>"
    show ?thesis
    proof (cases "map_of schemas schemaName")
      case None
      with False "2.prems" have "st' = ?st1" by (simp add: Let_def)
      moreover have "schemaName \<notin> dom (map_of schemas)" using None by (simp add: domIff)
      ultimately show ?thesis by (auto simp: sortedCovers_def)
    next
      case (Some schema)
      with False "2.prems" obtain st2 where
        st2: "visitEach fuel schemas (dependencyTargets schema) ?st1 = Some st2"
        and st': "st' = st2\<lparr>ts_visiting := ts_visiting st2 - {schemaName},
                              ts_visited := insert schemaName (ts_visited st2),
                              ts_sorted := ts_sorted st2 @ [schema]\<rparr>"
        by (auto simp: Let_def split: option.splits)
      from "2.IH" [OF _ _ refl Some st2] False
      have ih: "ts_visited ?st1 \<subseteq> ts_visited st2"
        "ts_visiting st2 \<inter> dom (map_of schemas) = ts_visiting ?st1 \<inter> dom (map_of schemas)"
        "\<exists>zs. ts_sorted st2 = ts_sorted ?st1 @ zs"
        "sortedCovers schemas ?st1 \<longrightarrow> sortedCovers schemas st2"
        by auto
      have a: "ts_visited st \<subseteq> ts_visited st'" using ih(1) st' by auto
      have b: "ts_visiting st' \<inter> dom (map_of schemas) = ts_visiting st \<inter> dom (map_of schemas)"
        using ih(2) st' False by auto
      have c: "schemaName \<in> ts_visited st'" using st' by simp
      have d: "\<exists>zs. ts_sorted st' = ts_sorted st @ zs" using ih(3) st' by auto
      have e: "sortedCovers schemas st \<longrightarrow> sortedCovers schemas st'"
      proof
        assume "sortedCovers schemas st"
        then have "sortedCovers schemas ?st1" by (simp add: sortedCovers_def)
        with ih(4) have "sortedCovers schemas st2" by simp
        then show "sortedCovers schemas st'"
          unfolding st' using Some by (rule sortedCovers_push)
      qed
      from a b c d e show ?thesis by blast
    qed
  qed
next
  case (3 fuel schemas st)
  then show ?case by simp
next
  case (4 fuel schemas schemaName rest st)
  from "4.prems" obtain st1 where st1: "visit fuel schemas schemaName st = Some st1"
    and r: "visitEach fuel schemas rest st1 = Some st'"
    by (auto split: option.splits)
  note h = "4.IH"(1) [OF st1] and t = "4.IH"(2) [OF st1 r]
  have a: "ts_visited st \<subseteq> ts_visited st'" using h t by blast
  have b: "ts_visiting st' \<inter> dom (map_of schemas) = ts_visiting st \<inter> dom (map_of schemas)"
    using h t by simp
  have c: "\<forall>n \<in> set (schemaName # rest).
             n \<in> dom (map_of schemas) \<longrightarrow> n \<in> ts_visited st' \<or> n \<in> ts_visiting st"
  proof (intro ballI impI)
    fix n assume n: "n \<in> set (schemaName # rest)" "n \<in> dom (map_of schemas)"
    show "n \<in> ts_visited st' \<or> n \<in> ts_visiting st"
    proof (cases "n = schemaName")
      case True
      with h n(2) have "n \<in> ts_visited st1 \<or> n \<in> ts_visiting st" by simp
      with t show ?thesis by blast
    next
      case False
      with n(1) have "n \<in> set rest" by simp
      with t n(2) have "n \<in> ts_visited st' \<or> n \<in> ts_visiting st1" by simp
      moreover have "n \<in> ts_visiting st1 \<Longrightarrow> n \<in> ts_visiting st"
        using h n(2) by blast
      ultimately show ?thesis by blast
    qed
  qed
  have d: "\<exists>zs. ts_sorted st' = ts_sorted st @ zs" using h t by auto
  have e: "sortedCovers schemas st \<longrightarrow> sortedCovers schemas st'" using h t by simp
  from a b c d e show ?case by blast
qed



subsection \<open>The order of the result\<close>

lemma sortedOrdered_push:
  assumes o: "sortedOrdered S st2" and n: "map_of S n = Some schema"
    and deps: "\<forall>d \<in> set (dependencyTargets schema). d \<in> dom (map_of S) \<longrightarrow> d \<in> ts_visited st2"
  shows "sortedOrdered S (st2\<lparr>ts_visiting := ts_visiting st2 - {n},
                              ts_visited := insert n (ts_visited st2),
                              ts_sorted := ts_sorted st2 @ [schema]\<rparr>)"
proof -
  let ?xs = "ts_sorted st2"
  have old: "\<exists>i < length (?xs @ [schema]).
        map_of S k = Some ((?xs @ [schema]) ! i)
        \<and> (\<forall>d \<in> set (dependencyTargets ((?xs @ [schema]) ! i)). \<forall>sd.
              map_of S d = Some sd \<longrightarrow> (\<exists>j < i. (?xs @ [schema]) ! j = sd))"
    if k: "k \<in> ts_visited st2" for k
  proof -
    from o k obtain i where i: "i < length ?xs" "map_of S k = Some (?xs ! i)"
      "\<forall>d \<in> set (dependencyTargets (?xs ! i)). \<forall>sd.
          map_of S d = Some sd \<longrightarrow> (\<exists>j < i. ?xs ! j = sd)"
      unfolding sortedOrdered_def by blast
    have "\<exists>j < i. (?xs @ [schema]) ! j = sd"
      if "d \<in> set (dependencyTargets (?xs ! i))" "map_of S d = Some sd" for d sd
    proof -
      from i(3) that obtain j where j: "j < i" "?xs ! j = sd" by blast
      with i(1) have "(?xs @ [schema]) ! j = sd" by (simp add: nth_append)
      with j(1) show ?thesis by blast
    qed
    with i(1,2) show ?thesis
      by (intro exI [of _ i]) (simp add: nth_append)
  qed
  have new: "\<exists>i < length (?xs @ [schema]).
        map_of S n = Some ((?xs @ [schema]) ! i)
        \<and> (\<forall>d \<in> set (dependencyTargets ((?xs @ [schema]) ! i)). \<forall>sd.
              map_of S d = Some sd \<longrightarrow> (\<exists>j < i. (?xs @ [schema]) ! j = sd))"
  proof -
    have "\<exists>j < length ?xs. (?xs @ [schema]) ! j = sd"
      if "d \<in> set (dependencyTargets schema)" "map_of S d = Some sd" for d sd
    proof -
      from that deps have "d \<in> ts_visited st2" by (auto simp: domI)
      with o obtain j where j: "j < length ?xs" "map_of S d = Some (?xs ! j)"
        unfolding sortedOrdered_def by blast
      with that(2) have "(?xs @ [schema]) ! j = sd" by (simp add: nth_append)
      with j(1) show ?thesis by blast
    qed
    with n show ?thesis
      by (intro exI [of _ "length ?xs"]) simp
  qed
  show ?thesis
    unfolding sortedOrdered_def
  proof (intro ballI)
    fix k
    assume "k \<in> ts_visited (st2\<lparr>ts_visiting := ts_visiting st2 - {n},
                              ts_visited := insert n (ts_visited st2),
                              ts_sorted := ts_sorted st2 @ [schema]\<rparr>)"
    then have "k = n \<or> k \<in> ts_visited st2" by simp
    then show "\<exists>i < length (ts_sorted (st2\<lparr>ts_visiting := ts_visiting st2 - {n},
                              ts_visited := insert n (ts_visited st2),
                              ts_sorted := ts_sorted st2 @ [schema]\<rparr>)).
        map_of S k = Some (ts_sorted (st2\<lparr>ts_visiting := ts_visiting st2 - {n},
                              ts_visited := insert n (ts_visited st2),
                              ts_sorted := ts_sorted st2 @ [schema]\<rparr>) ! i)
        \<and> (\<forall>d \<in> set (dependencyTargets (ts_sorted (st2\<lparr>ts_visiting := ts_visiting st2 - {n},
                              ts_visited := insert n (ts_visited st2),
                              ts_sorted := ts_sorted st2 @ [schema]\<rparr>) ! i)). \<forall>sd.
              map_of S d = Some sd \<longrightarrow> (\<exists>j < i. ts_sorted (st2\<lparr>ts_visiting := ts_visiting st2 - {n},
                              ts_visited := insert n (ts_visited st2),
                              ts_sorted := ts_sorted st2 @ [schema]\<rparr>) ! j = sd))"
    proof
      assume "k = n"
      with new show ?thesis by simp
    next
      assume "k \<in> ts_visited st2"
      from old [OF this] show ?thesis by simp
    qed
  qed
qed

lemma dependencies_step:
  "map_of S a = Some sa \<Longrightarrow> d \<in> set (dependencyTargets sa) \<Longrightarrow> (a, d) \<in> dependencies S"
  by (auto simp: dependencies_def)

lemma visit_ordered:
  assumes acyclic: "acyclic (dependencies S)"
  shows "visit fuel S n st = Some st' \<Longrightarrow>
     \<forall>x \<in> ts_visiting st \<inter> dom (map_of S). (x, n) \<in> (dependencies S)\<^sup>+ \<Longrightarrow>
     (n \<in> dom (map_of S) \<longrightarrow> n \<in> ts_visited st')
     \<and> (sortedOrdered S st \<longrightarrow> sortedOrdered S st')"
  and "visitEach fuel S ns st = Some st' \<Longrightarrow>
     \<forall>x \<in> ts_visiting st \<inter> dom (map_of S). \<forall>n \<in> set ns. (x, n) \<in> (dependencies S)\<^sup>+ \<Longrightarrow>
     (\<forall>n \<in> set ns. n \<in> dom (map_of S) \<longrightarrow> n \<in> ts_visited st')
     \<and> (sortedOrdered S st \<longrightarrow> sortedOrdered S st')"
  using acyclic
proof (induction fuel S n st and fuel S ns st arbitrary: st' and st'
    rule: visit_visitEach.induct)
  case (1 schemas schemaName st)
  then show ?case by simp
next
  case (2 fuel schemas schemaName st)
  note pre = "2.prems"(2) and acy = "2.prems"(3)
  show ?case
  proof (cases "schemaName \<in> ts_visited st")
    case True
    with "2.prems"(1) have "st' = st" by simp
    with True show ?thesis by simp
  next
    case nv: False
    show ?thesis
    proof (cases "schemaName \<in> ts_visiting st")
      case True
      with nv "2.prems"(1) have eq: "st' = st" by simp
      have "schemaName \<notin> dom (map_of schemas)"
      proof
        assume "schemaName \<in> dom (map_of schemas)"
        with True pre have "(schemaName, schemaName) \<in> (dependencies schemas)\<^sup>+" by blast
        with acy show False by (simp add: acyclic_def)
      qed
      with eq show ?thesis by simp
    next
      case False
      let ?st1 = "st\<lparr>ts_visiting := insert schemaName (ts_visiting st)\<rparr>"
      show ?thesis
      proof (cases "map_of schemas schemaName")
        case None
        with nv False "2.prems"(1) have "st' = ?st1" by (simp add: Let_def)
        moreover have "schemaName \<notin> dom (map_of schemas)" using None by (simp add: domIff)
        ultimately show ?thesis by (simp add: sortedOrdered_def)
      next
        case (Some schema)
        with nv False "2.prems"(1) obtain st2 where
          st2: "visitEach fuel schemas (dependencyTargets schema) ?st1 = Some st2"
          and st': "st' = st2\<lparr>ts_visiting := ts_visiting st2 - {schemaName},
                                ts_visited := insert schemaName (ts_visited st2),
                                ts_sorted := ts_sorted st2 @ [schema]\<rparr>"
          by (auto simp: Let_def split: option.splits)
        have pre1: "\<forall>x \<in> ts_visiting ?st1 \<inter> dom (map_of schemas).
                      \<forall>d \<in> set (dependencyTargets schema). (x, d) \<in> (dependencies schemas)\<^sup>+"
        proof (intro ballI)
          fix x d
          assume x: "x \<in> ts_visiting ?st1 \<inter> dom (map_of schemas)"
            and d: "d \<in> set (dependencyTargets schema)"
          from Some d have e: "(schemaName, d) \<in> dependencies schemas"
            by (rule dependencies_step)
          show "(x, d) \<in> (dependencies schemas)\<^sup>+"
          proof (cases "x = schemaName")
            case True
            with e show ?thesis by blast
          next
            case False
            with x have "x \<in> ts_visiting st \<inter> dom (map_of schemas)" by simp
            with pre have "(x, schemaName) \<in> (dependencies schemas)\<^sup>+" by blast
            from this e show ?thesis by (rule trancl.trancl_into_trancl)
          qed
        qed
        note ih = "2.IH" [OF nv False refl Some st2 pre1 acy]
        have c: "schemaName \<in> ts_visited st'" using st' by simp
        have o: "sortedOrdered schemas st \<longrightarrow> sortedOrdered schemas st'"
        proof
          assume "sortedOrdered schemas st"
          then have "sortedOrdered schemas ?st1" by (simp add: sortedOrdered_def)
          with ih have "sortedOrdered schemas st2" by simp
          then show "sortedOrdered schemas st'"
            unfolding st' using Some ih by (intro sortedOrdered_push) simp_all
        qed
        from c o show ?thesis by simp
      qed
    qed
  qed
next
  case (3 fuel schemas st)
  then show ?case by simp
next
  case (4 fuel schemas schemaName rest st)
  note pre = "4.prems"(2) and acy = "4.prems"(3)
  from "4.prems"(1) obtain st1 where st1: "visit fuel schemas schemaName st = Some st1"
    and r: "visitEach fuel schemas rest st1 = Some st'"
    by (auto split: option.splits)
  have pre_h: "\<forall>x \<in> ts_visiting st \<inter> dom (map_of schemas).
                 (x, schemaName) \<in> (dependencies schemas)\<^sup>+"
    using pre by simp
  note h = "4.IH"(1) [OF st1 pre_h acy]
  have same: "ts_visiting st1 \<inter> dom (map_of schemas) = ts_visiting st \<inter> dom (map_of schemas)"
    using visit_effect(1) [OF st1] by simp
  have pre_t: "\<forall>x \<in> ts_visiting st1 \<inter> dom (map_of schemas).
                 \<forall>n \<in> set rest. (x, n) \<in> (dependencies schemas)\<^sup>+"
    using pre same by simp
  note t = "4.IH"(2) [OF st1 r pre_t acy]
  have mono: "ts_visited st1 \<subseteq> ts_visited st'"
    using visit_effect(2) [OF r] by simp
  have "schemaName \<in> dom (map_of schemas) \<longrightarrow> schemaName \<in> ts_visited st'"
    using h mono by blast
  with t h show ?case by simp
qed

text \<open>
  On an acyclic collection, the schema of every dependency target that is in the
  collection stands in the result before the schema that depends on it.
\<close>

lemma topologicalSort_ordered:
  assumes "acyclic (dependencies S)" and "topologicalSort S = Some sortedSchemas"
    and "map_of S a = Some sa" and "d \<in> set (dependencyTargets sa)" and "map_of S d = Some sd"
  shows "\<exists>i j. j < i \<and> i < length sortedSchemas \<and> sortedSchemas ! i = sa \<and> sortedSchemas ! j = sd"
proof -
  let ?st0 = "\<lparr>ts_sorted = [], ts_visited = {}, ts_visiting = {}\<rparr>"
  from assms(2) obtain st' where
    r: "visitEach (Suc (length S)) S (map fst S) ?st0 = Some st'"
    and s: "sortedSchemas = ts_sorted st'"
    by (auto simp: topologicalSort_def)
  have "\<forall>x \<in> ts_visiting ?st0 \<inter> dom (map_of S). \<forall>n \<in> set (map fst S).
          (x, n) \<in> (dependencies S)\<^sup>+"
    by simp
  note v = visit_ordered(2) [OF assms(1) r this]
  have "sortedOrdered S ?st0" by (simp add: sortedOrdered_def)
  with v have o: "sortedOrdered S st'" by simp
  have "a \<in> set (map fst S)" using assms(3)
    by (metis domI dom_map_of_conv_image_fst list.set_map)
  with v assms(3) have "a \<in> ts_visited st'" by (auto simp: domI)
  with o obtain i where i: "i < length (ts_sorted st')" "map_of S a = Some (ts_sorted st' ! i)"
    "\<forall>d \<in> set (dependencyTargets (ts_sorted st' ! i)). \<forall>sd.
        map_of S d = Some sd \<longrightarrow> (\<exists>j < i. ts_sorted st' ! j = sd)"
    unfolding sortedOrdered_def by blast
  from i(2) assms(3) have "ts_sorted st' ! i = sa" by simp
  with i(3) assms(4,5) obtain j where "j < i" "ts_sorted st' ! j = sd" by blast
  with i(1) \<open>ts_sorted st' ! i = sa\<close> show ?thesis unfolding s by blast
qed

section \<open>The migration generator\<close>

subsection \<open>Versions and file names\<close>

lemma numberedFrom_append:
  assumes "numberedFrom v0 ms" and "m_version m = (increment ^^ length ms) v0"
  shows "numberedFrom v0 (ms @ [m])"
  using assms by (simp add: numberedFrom_def)

lemma consistent_emit:
  assumes "consistent resolved st"
  shows "consistent resolved
           (st\<lparr>g_migrations := g_migrations st @ [tableMigration resolved (g_version st) table kind],
               g_version := increment (g_version st)\<rparr>)"
proof -
  have "m_version (tableMigration resolved (g_version st) table kind)
          = (increment ^^ length (g_migrations st)) (r_startVersion resolved)"
    using assms by (simp add: consistent_def tableMigration_def)
  with assms have "numberedFrom (r_startVersion resolved)
      (g_migrations st @ [tableMigration resolved (g_version st) table kind])"
    by (intro numberedFrom_append) (simp_all add: consistent_def)
  moreover have "m_fileName (tableMigration resolved (g_version st) table kind)
      = generateFileName (m_version (tableMigration resolved (g_version st) table kind))
          (m_name (tableMigration resolved (g_version st) table kind)) (r_versionPadding resolved)"
    by (simp add: tableMigration_def)
  ultimately show ?thesis using assms by (simp add: consistent_def)
qed

lemma consistent_emitCreate:
  "consistent resolved st \<Longrightarrow> consistent resolved (emitCreate resolved schemas st schema)"
  unfolding emitCreate_def Let_def by (rule consistent_emit)

lemma consistent_emitPivot:
  "consistent resolved st \<Longrightarrow> consistent resolved (emitPivot resolved pivotTable st)"
proof (cases pivotTable)
  case None
  assume "consistent resolved st"
  with None show ?thesis by (simp add: emitPivot_def)
next
  case (Some table)
  assume c: "consistent resolved st"
  show ?thesis
  proof (cases "t_name table \<in> g_createdPivots st")
    case True
    with Some c show ?thesis by (simp add: emitPivot_def)
  next
    case False
    from c have "consistent resolved (st\<lparr>g_createdPivots := insert (t_name table) (g_createdPivots st)\<rparr>)"
      by (simp add: consistent_def)
    from consistent_emit [OF this, of table pivot]
    have "consistent resolved
           (st\<lparr>g_createdPivots := insert (t_name table) (g_createdPivots st),
               g_migrations := g_migrations st @ [tableMigration resolved (g_version st) table pivot],
               g_version := increment (g_version st)\<rparr>)"
      by simp
    with Some False show ?thesis by (simp add: emitPivot_def)
  qed
qed

lemma consistent_create_pass:
  "consistent resolved st \<Longrightarrow> consistent resolved (foldl (emitCreate resolved schemas) st xs)"
  by (induction xs arbitrary: st) (simp_all add: consistent_emitCreate)

lemma consistent_pivotStep:
  "consistent resolved st \<Longrightarrow> consistent resolved (pivotStep resolved schemas schema st entry)"
  by (simp add: pivotStep_def consistent_emitPivot)

lemma consistent_properties:
  "consistent resolved st \<Longrightarrow>
     consistent resolved (foldl (pivotStep resolved schemas schema) st entries)"
  by (induction entries arbitrary: st) (simp_all add: consistent_pivotStep)

lemma consistent_pivotPass:
  "consistent resolved st \<Longrightarrow> consistent resolved (pivotPass resolved schemas st xs)"
  unfolding pivotPass_def
  by (induction xs arbitrary: st) (simp_all add: consistent_properties)

lemma padStart_zero:
  "padStart n ''0'' s = replicate (n - length s) CHR ''0'' @ s"
proof -
  have "concat (replicate k ''0'') = replicate k CHR ''0''" for k
    by (induction k) simp_all
  then show ?thesis by (simp add: padStart_def)
qed

text \<open>What \<open>generateMigrations\<close> returns, unfolded once.\<close>

lemma generateMigrations_returns:
  "generateMigrations S options = Some (Inr ms) \<longleftrightarrow>
     validateSchemaCompatibility S (r_dialect (resolveOptions options)) = None
     \<and> (\<exists>sortedSchemas. topologicalSort (objectSchemas S) = Some sortedSchemas
          \<and> ms = g_migrations
                   (pivotPass (resolveOptions options) S
                      (foldl (emitCreate (resolveOptions options) S)
                         \<lparr>g_migrations = [], g_version = r_startVersion (resolveOptions options),
                          g_createdPivots = {}\<rparr> sortedSchemas)
                      sortedSchemas))"
  by (auto simp: generateMigrations_def Let_def split: option.splits)


lemma generateMigrations_total: "\<exists>result. generateMigrations S options = Some result"
proof -
  obtain sortedSchemas where "topologicalSort (objectSchemas S) = Some sortedSchemas"
    using topologicalSort_returns by blast
  then show ?thesis
    by (simp add: generateMigrations_def Let_def split: option.splits)
qed

text \<open>
  Where the host counts exactly: a number of magnitude at most \<open>2 ^ 53\<close> is the integer
  it denotes, adding one below \<open>2 ^ 53\<close> gives the successor, and the string of such a
  number is its decimal representation.
\<close>

lemma nearestNumber_exact: "\<bar>i\<bar> \<le> 2 ^ 53 \<Longrightarrow> nearestNumber i = i"
  by (auto simp: nearestNumber_def nearestMagnitude_def)

lemma increment_exact: "- (2 ^ 53) \<le> v \<Longrightarrow> v < 2 ^ 53 \<Longrightarrow> increment v = v + 1"
  unfolding increment_def by (rule nearestNumber_exact) simp

lemma numberToString_exact: "\<bar>i\<bar> \<le> 2 ^ 53 \<Longrightarrow> numberToString i = showInt i"
  by (auto simp: numberToString_def magnitudeToString_def showInt_def)

lemma increment_iterates:
  assumes "- (2 ^ 53) \<le> v" and "v + int n \<le> 2 ^ 53"
  shows "(increment ^^ n) v = v + int n"
  using assms(2)
proof (induction n)
  case 0
  show ?case by simp
next
  case (Suc n)
  then have "(increment ^^ n) v = v + int n" by simp
  moreover have "increment (v + int n) = v + int n + 1"
    using assms(1) Suc.prems by (intro increment_exact) simp_all
  ultimately show ?case by simp
qed

text \<open>
  C3, as stated, fails: the version counter is a number, and adding one to the number
  \<open>2 ^ 53\<close> gives \<open>2 ^ 53\<close> again. With that start version the three migrations of
  the blog collection all carry the same version.
\<close>

theorem version_is_reused_beyond_exact_range:
  "map_option (map_sum id (map m_version)) (generateMigrations blogSchemas largeVersionOptions)
     = Some (Inr [9007199254740992, 9007199254740992, 9007199254740992])"
  by code_simp

text \<open>
  C3, amended: let the start version be an integer not below \<open>- (2 ^ 53)\<close>, and let the
  run return a list whose last version, counted from the start version, does not exceed
  \<open>2 ^ 53\<close>. Then the versions of the returned migrations are the start version and
  its successors, in order, so none occurs twice; and every file name is the decimal
  version, filled with zeros on the left up to the padding width, followed by an
  underscore, the name of the migration and \<open>.sql\<close>.
\<close>

theorem versions_and_file_names:
  assumes run: "generateMigrations S options = Some (Inr ms)"
    and lower: "- (2 ^ 53) \<le> r_startVersion (resolveOptions options)"
    and upper: "r_startVersion (resolveOptions options) + int (length ms) \<le> 2 ^ 53 + 1"
  shows "map m_version ms
           = map (\<lambda>i. r_startVersion (resolveOptions options) + int i) [0..<length ms]
     \<and> distinct (map m_version ms)
     \<and> (\<forall>m \<in> set ms.
           m_fileName m
             = replicate (r_versionPadding (resolveOptions options)
                          - length (showInt (m_version m))) CHR ''0''
               @ showInt (m_version m) @ ''_'' @ m_name m @ ''.sql'')"
proof -
  let ?r = "resolveOptions options"
  let ?st0 = "\<lparr>g_migrations = [], g_version = r_startVersion ?r, g_createdPivots = {}\<rparr>"
  from run obtain sortedSchemas where
    ms: "ms = g_migrations (pivotPass ?r S (foldl (emitCreate ?r S) ?st0 sortedSchemas)
                              sortedSchemas)"
    by (auto simp: generateMigrations_returns)
  have "consistent ?r ?st0" by (simp add: consistent_def numberedFrom_def)
  then have "consistent ?r (pivotPass ?r S (foldl (emitCreate ?r S) ?st0 sortedSchemas)
                              sortedSchemas)"
    by (intro consistent_pivotPass consistent_create_pass)
  then have c: "map m_version ms = map (\<lambda>i. (increment ^^ i) (r_startVersion ?r)) [0..<length ms]"
    and f: "\<forall>m \<in> set ms. m_fileName m
              = generateFileName (m_version m) (m_name m) (r_versionPadding ?r)"
    unfolding ms by (simp_all add: consistent_def numberedFrom_def)
  have it: "(increment ^^ i) (r_startVersion ?r) = r_startVersion ?r + int i"
    if "i < length ms" for i
    using lower
  proof (rule increment_iterates)
    from that upper show "r_startVersion ?r + int i \<le> 2 ^ 53" by simp
  qed
  have v: "map m_version ms = map (\<lambda>i. r_startVersion ?r + int i) [0..<length ms]"
    unfolding c by (rule map_cong) (simp_all add: it)
  have "inj_on (\<lambda>i. r_startVersion ?r + int i) (set [0..<length ms])"
    by (simp add: inj_on_def)
  then have "distinct (map (\<lambda>i. r_startVersion ?r + int i) [0..<length ms])"
    by (simp add: distinct_map)
  with v have d: "distinct (map m_version ms)" by simp
  have b: "\<bar>m_version m\<bar> \<le> 2 ^ 53" if "m \<in> set ms" for m
  proof -
    from that have "m_version m \<in> set (map m_version ms)" by simp
    then obtain i where "i < length ms" "m_version m = r_startVersion ?r + int i"
      unfolding v by auto
    with lower upper show ?thesis by simp
  qed
  have "m_fileName m = replicate (r_versionPadding ?r - length (showInt (m_version m))) CHR ''0''
                       @ showInt (m_version m) @ ''_'' @ m_name m @ ''.sql''"
    if "m \<in> set ms" for m
  proof -
    from f that have "m_fileName m = generateFileName (m_version m) (m_name m) (r_versionPadding ?r)"
      by simp
    moreover from that have "numberToString (m_version m) = showInt (m_version m)"
      by (intro numberToString_exact b)
    ultimately show ?thesis
      by (simp add: generateFileName_def formatVersion_def padStart_zero)
  qed
  with v d show ?thesis by blast
qed

subsection \<open>The two passes\<close>

lemma create_pass:
  "length (g_migrations (foldl (emitCreate resolved schemas) st xs))
     = length (g_migrations st) + length xs
   \<and> g_createdPivots (foldl (emitCreate resolved schemas) st xs) = g_createdPivots st
   \<and> g_version (foldl (emitCreate resolved schemas) st xs) = (increment ^^ length xs) (g_version st)
   \<and> take (length (g_migrations st)) (g_migrations (foldl (emitCreate resolved schemas) st xs))
       = g_migrations st
   \<and> (\<forall>i < length xs.
         g_migrations (foldl (emitCreate resolved schemas) st xs) ! (length (g_migrations st) + i)
           = tableMigration resolved ((increment ^^ i) (g_version st))
               (schemaToTable (xs ! i) schemas resolved) create)"
proof (induction xs rule: rev_induct)
  case Nil
  show ?case by simp
next
  case (snoc x xs)
  let ?st = "foldl (emitCreate resolved schemas) st xs"
  have l: "length (g_migrations ?st) = length (g_migrations st) + length xs"
    and c: "g_createdPivots ?st = g_createdPivots st"
    and v: "g_version ?st = (increment ^^ length xs) (g_version st)"
    and t: "take (length (g_migrations st)) (g_migrations ?st) = g_migrations st"
    and n: "\<forall>i < length xs. g_migrations ?st ! (length (g_migrations st) + i)
              = tableMigration resolved ((increment ^^ i) (g_version st))
                  (schemaToTable (xs ! i) schemas resolved) create"
    using snoc.IH by simp_all
  have e: "g_migrations (foldl (emitCreate resolved schemas) st (xs @ [x]))
             = g_migrations ?st
               @ [tableMigration resolved (g_version ?st) (schemaToTable x schemas resolved) create]"
    by (simp add: emitCreate_def Let_def)
  have "g_migrations (foldl (emitCreate resolved schemas) st (xs @ [x])) ! (length (g_migrations st) + i)
          = tableMigration resolved ((increment ^^ i) (g_version st))
              (schemaToTable ((xs @ [x]) ! i) schemas resolved) create"
    if "i < length (xs @ [x])" for i
  proof (cases "i < length xs")
    case True
    with n l show ?thesis unfolding e by (simp add: nth_append)
  next
    case False
    with that have "i = length xs" by simp
    with l v show ?thesis unfolding e by (simp add: nth_append)
  qed
  moreover have "take (length (g_migrations st))
                   (g_migrations (foldl (emitCreate resolved schemas) st (xs @ [x])))
                 = g_migrations st"
    unfolding e using t l by simp
  moreover have "g_createdPivots (foldl (emitCreate resolved schemas) st (xs @ [x]))
                   = g_createdPivots st"
    using c by (simp add: emitCreate_def Let_def)
  moreover have "g_version (foldl (emitCreate resolved schemas) st (xs @ [x]))
                   = (increment ^^ length (xs @ [x])) (g_version st)"
    using v by (simp add: emitCreate_def Let_def)
  moreover have "length (g_migrations (foldl (emitCreate resolved schemas) st (xs @ [x])))
                   = length (g_migrations st) + length (xs @ [x])"
    unfolding e using l by simp
  ultimately show ?case by blast
qed

lemma create_pass_types:
  "\<forall>m \<in> set (g_migrations st). m_type m = create \<Longrightarrow>
     \<forall>m \<in> set (g_migrations (foldl (emitCreate resolved schemas) st xs)). m_type m = create"
  by (induction xs rule: rev_induct) (auto simp: emitCreate_def Let_def tableMigration_def)

text \<open>
  A step of the pivot pass keeps what is there and appends pivot migrations; it keeps
  the recorded names in step with the pivot migrations, and the name of the table it
  is given is recorded afterwards.
\<close>

lemma emitPivot_effect:
  "(\<exists>ps. g_migrations (emitPivot resolved pivotTable st) = g_migrations st @ ps
         \<and> (\<forall>m \<in> set ps. m_type m = pivot))
   \<and> g_createdPivots st \<subseteq> g_createdPivots (emitPivot resolved pivotTable st)
   \<and> (\<forall>table. pivotTable = Some table \<longrightarrow>
          t_name table \<in> g_createdPivots (emitPivot resolved pivotTable st))
   \<and> (pivotsRecorded st \<longrightarrow> pivotsRecorded (emitPivot resolved pivotTable st))"
proof (cases pivotTable)
  case None
  then show ?thesis by (simp add: emitPivot_def)
next
  case (Some table)
  show ?thesis
  proof (cases "t_name table \<in> g_createdPivots st")
    case True
    with Some show ?thesis by (simp add: emitPivot_def)
  next
    case False
    have r: "pivotsRecorded (emitPivot resolved pivotTable st)" if "pivotsRecorded st"
    proof -
      from that False have "[t_name table] \<notin> set (pivotTables (g_migrations st))"
        by (auto simp: pivotsRecorded_def)
      with that Some False show ?thesis
        by (simp add: pivotsRecorded_def emitPivot_def pivotTables_def tableMigration_def)
    qed
    have "g_migrations (emitPivot resolved pivotTable st)
            = g_migrations st @ [tableMigration resolved (g_version st) table pivot]"
      using Some False by (simp add: emitPivot_def)
    moreover have "m_type (tableMigration resolved (g_version st) table pivot) = pivot"
      by (simp add: tableMigration_def)
    moreover have "g_createdPivots (emitPivot resolved pivotTable st)
                     = insert (t_name table) (g_createdPivots st)"
      using Some False by (simp add: emitPivot_def)
    ultimately show ?thesis using r Some by auto
  qed
qed

lemma pivotStep_effect:
  "(\<exists>ps. g_migrations (pivotStep resolved schemas schema st entry) = g_migrations st @ ps
         \<and> (\<forall>m \<in> set ps. m_type m = pivot))
   \<and> g_createdPivots st \<subseteq> g_createdPivots (pivotStep resolved schemas schema st entry)
   \<and> (\<forall>table. generatePivotTable schema (fst entry) (snd entry) schemas resolved = Some table \<longrightarrow>
          t_name table \<in> g_createdPivots (pivotStep resolved schemas schema st entry))
   \<and> (pivotsRecorded st \<longrightarrow> pivotsRecorded (pivotStep resolved schemas schema st entry))"
proof -
  let ?a = "generatePivotTable schema (fst entry) (snd entry) schemas resolved"
  let ?b = "generateMorphPivotTable schema (fst entry) (snd entry) schemas resolved"
  let ?st1 = "emitPivot resolved ?a st"
  note a = emitPivot_effect [of resolved ?a st]
  note b = emitPivot_effect [of resolved ?b ?st1]
  from a obtain ps where ps: "g_migrations ?st1 = g_migrations st @ ps"
    "\<forall>m \<in> set ps. m_type m = pivot" by blast
  from b obtain qs where qs: "g_migrations (emitPivot resolved ?b ?st1) = g_migrations ?st1 @ qs"
    "\<forall>m \<in> set qs. m_type m = pivot" by blast
  have "g_migrations (pivotStep resolved schemas schema st entry) = g_migrations st @ (ps @ qs)"
    using ps(1) qs(1) by (simp add: pivotStep_def)
  moreover have "\<forall>m \<in> set (ps @ qs). m_type m = pivot" using ps(2) qs(2) by auto
  ultimately have 1: "\<exists>ps. g_migrations (pivotStep resolved schemas schema st entry)
                           = g_migrations st @ ps \<and> (\<forall>m \<in> set ps. m_type m = pivot)"
    by blast
  have 2: "g_createdPivots st \<subseteq> g_createdPivots (pivotStep resolved schemas schema st entry)"
    using a b by (auto simp: pivotStep_def)
  have 3: "\<forall>table. ?a = Some table \<longrightarrow>
             t_name table \<in> g_createdPivots (pivotStep resolved schemas schema st entry)"
    using a b by (auto simp: pivotStep_def)
  have 4: "pivotsRecorded st \<longrightarrow> pivotsRecorded (pivotStep resolved schemas schema st entry)"
    using a b by (simp add: pivotStep_def)
  from 1 2 3 4 show ?thesis by blast
qed

lemma properties_effect:
  "(\<exists>ps. g_migrations (foldl (pivotStep resolved schemas schema) st entries) = g_migrations st @ ps
         \<and> (\<forall>m \<in> set ps. m_type m = pivot))
   \<and> g_createdPivots st \<subseteq> g_createdPivots (foldl (pivotStep resolved schemas schema) st entries)
   \<and> (\<forall>entry \<in> set entries. \<forall>table.
          generatePivotTable schema (fst entry) (snd entry) schemas resolved = Some table \<longrightarrow>
          t_name table \<in> g_createdPivots (foldl (pivotStep resolved schemas schema) st entries))
   \<and> (pivotsRecorded st \<longrightarrow>
        pivotsRecorded (foldl (pivotStep resolved schemas schema) st entries))"
proof (induction entries rule: rev_induct)
  case Nil
  show ?case by simp
next
  case (snoc entry entries)
  let ?st = "foldl (pivotStep resolved schemas schema) st entries"
  note s = pivotStep_effect [of resolved schemas schema ?st entry]
  from snoc.IH obtain ps where ps: "g_migrations ?st = g_migrations st @ ps"
    "\<forall>m \<in> set ps. m_type m = pivot" by blast
  from s obtain qs where qs: "g_migrations (pivotStep resolved schemas schema ?st entry)
      = g_migrations ?st @ qs" "\<forall>m \<in> set qs. m_type m = pivot" by blast
  have "g_migrations (foldl (pivotStep resolved schemas schema) st (entries @ [entry]))
          = g_migrations st @ (ps @ qs)"
    using ps(1) qs(1) by simp
  moreover have "\<forall>m \<in> set (ps @ qs). m_type m = pivot" using ps(2) qs(2) by auto
  ultimately have 1: "\<exists>ps. g_migrations (foldl (pivotStep resolved schemas schema) st
                                           (entries @ [entry]))
                           = g_migrations st @ ps \<and> (\<forall>m \<in> set ps. m_type m = pivot)"
    by blast
  have 2: "g_createdPivots st
             \<subseteq> g_createdPivots (foldl (pivotStep resolved schemas schema) st (entries @ [entry]))"
    using snoc.IH s by auto
  have 3: "\<forall>e \<in> set (entries @ [entry]). \<forall>table.
             generatePivotTable schema (fst e) (snd e) schemas resolved = Some table \<longrightarrow>
             t_name table
               \<in> g_createdPivots (foldl (pivotStep resolved schemas schema) st (entries @ [entry]))"
    using snoc.IH s by auto
  have 4: "pivotsRecorded st \<longrightarrow>
             pivotsRecorded (foldl (pivotStep resolved schemas schema) st (entries @ [entry]))"
    using snoc.IH s by simp
  from 1 2 3 4 show ?case by blast
qed

lemma pivotPass_effect:
  "(\<exists>ps. g_migrations (pivotPass resolved schemas st xs) = g_migrations st @ ps
         \<and> (\<forall>m \<in> set ps. m_type m = pivot))
   \<and> g_createdPivots st \<subseteq> g_createdPivots (pivotPass resolved schemas st xs)
   \<and> (\<forall>schema \<in> set xs. \<forall>entry \<in> set (propertiesOf schema). \<forall>table.
          generatePivotTable schema (fst entry) (snd entry) schemas resolved = Some table \<longrightarrow>
          t_name table \<in> g_createdPivots (pivotPass resolved schemas st xs))
   \<and> (pivotsRecorded st \<longrightarrow> pivotsRecorded (pivotPass resolved schemas st xs))"
proof (induction xs rule: rev_induct)
  case Nil
  show ?case by (simp add: pivotPass_def)
next
  case (snoc x xs)
  let ?st = "pivotPass resolved schemas st xs"
  have step: "pivotPass resolved schemas st (xs @ [x])
                = foldl (pivotStep resolved schemas x) ?st (propertiesOf x)"
    by (simp add: pivotPass_def)
  note s = properties_effect [of resolved schemas x ?st "propertiesOf x"]
  from snoc.IH obtain ps where ps: "g_migrations ?st = g_migrations st @ ps"
    "\<forall>m \<in> set ps. m_type m = pivot" by blast
  from s obtain qs where qs:
    "g_migrations (foldl (pivotStep resolved schemas x) ?st (propertiesOf x)) = g_migrations ?st @ qs"
    "\<forall>m \<in> set qs. m_type m = pivot" by blast
  have "g_migrations (pivotPass resolved schemas st (xs @ [x])) = g_migrations st @ (ps @ qs)"
    using ps(1) qs(1) step by simp
  moreover have "\<forall>m \<in> set (ps @ qs). m_type m = pivot" using ps(2) qs(2) by auto
  ultimately have 1: "\<exists>ps. g_migrations (pivotPass resolved schemas st (xs @ [x]))
                           = g_migrations st @ ps \<and> (\<forall>m \<in> set ps. m_type m = pivot)"
    by blast
  have 2: "g_createdPivots st \<subseteq> g_createdPivots (pivotPass resolved schemas st (xs @ [x]))"
    using snoc.IH s step by auto
  have 3: "\<forall>schema \<in> set (xs @ [x]). \<forall>entry \<in> set (propertiesOf schema). \<forall>table.
             generatePivotTable schema (fst entry) (snd entry) schemas resolved = Some table \<longrightarrow>
             t_name table \<in> g_createdPivots (pivotPass resolved schemas st (xs @ [x]))"
    using snoc.IH s step by auto
  have 4: "pivotsRecorded st \<longrightarrow> pivotsRecorded (pivotPass resolved schemas st (xs @ [x]))"
    using snoc.IH s step by simp
  from 1 2 3 4 show ?case by blast
qed

section \<open>Compatibility validation\<close>



















section \<open>The claims about whole runs\<close>

lemma objectSchemas_lookup:
  assumes "distinct (map fst S)" and "(k, s) \<in> set S" and "s_kind s \<noteq> Some ''enum''"
  shows "map_of (objectSchemas S) k = Some s"
proof -
  have "distinct (map fst (objectSchemas S))"
    unfolding objectSchemas_def using assms(1) by (rule distinct_map_filter)
  moreover have "(k, s) \<in> set (objectSchemas S)"
    using assms(2,3) by (simp add: objectSchemas_def)
  ultimately show ?thesis by (rule map_of_is_SomeI)
qed


text \<open>
  The shape of a returned list: the create migrations of the sorted schemas, numbered
  from the start version, then pivot migrations, one for each recorded pivot name.
\<close>

lemma generateMigrations_shape:
  assumes "generateMigrations S options = Some (Inr ms)"
  shows "\<exists>sortedSchemas ps.
           topologicalSort (objectSchemas S) = Some sortedSchemas
         \<and> ms = map (\<lambda>i. tableMigration (resolveOptions options)
                            ((increment ^^ i) (r_startVersion (resolveOptions options)))
                            (schemaToTable (sortedSchemas ! i) S (resolveOptions options)) create)
                   [0..<length sortedSchemas] @ ps
         \<and> (\<forall>m \<in> set ps. m_type m = pivot)
         \<and> distinct (pivotTables ms)
         \<and> (\<forall>schema \<in> set sortedSchemas. \<forall>entry \<in> set (propertiesOf schema). \<forall>table.
               generatePivotTable schema (fst entry) (snd entry) S (resolveOptions options)
                 = Some table \<longrightarrow> [t_name table] \<in> set (pivotTables ms))"
proof -
  let ?r = "resolveOptions options"
  let ?st0 = "\<lparr>g_migrations = [], g_version = r_startVersion ?r, g_createdPivots = {}\<rparr>"
  from assms obtain sortedSchemas where
    srt: "topologicalSort (objectSchemas S) = Some sortedSchemas"
    and ms: "ms = g_migrations (pivotPass ?r S (foldl (emitCreate ?r S) ?st0 sortedSchemas)
                                 sortedSchemas)"
    by (auto simp: generateMigrations_returns)
  let ?st1 = "foldl (emitCreate ?r S) ?st0 sortedSchemas"
  let ?st2 = "pivotPass ?r S ?st1 sortedSchemas"
  let ?creates = "map (\<lambda>i. tableMigration ?r ((increment ^^ i) (r_startVersion ?r))
                              (schemaToTable (sortedSchemas ! i) S ?r) create)
                    [0..<length sortedSchemas]"
  note c = create_pass [of ?r S ?st0 sortedSchemas]
  have c1: "g_migrations ?st1 = ?creates"
    using c by (intro nth_equalityI) simp_all
  have "\<forall>m \<in> set (g_migrations ?st0). m_type m = create" by simp
  then have "\<forall>m \<in> set (g_migrations ?st1). m_type m = create"
    by (rule create_pass_types)
  then have "filter (\<lambda>m. m_type m = pivot) (g_migrations ?st1) = []"
    by (auto simp: filter_empty_conv)
  moreover have "g_createdPivots ?st1 = {}" using c by simp
  ultimately have rec1: "pivotsRecorded ?st1"
    by (simp add: pivotsRecorded_def pivotTables_def)
  note e = pivotPass_effect [of ?r S ?st1 sortedSchemas]
  from e obtain ps where ps: "g_migrations ?st2 = g_migrations ?st1 @ ps"
    "\<forall>m \<in> set ps. m_type m = pivot" by blast
  from e rec1 have rec2: "pivotsRecorded ?st2" by blast
  have "[t_name table] \<in> set (pivotTables ms)"
    if "schema \<in> set sortedSchemas" "entry \<in> set (propertiesOf schema)"
      "generatePivotTable schema (fst entry) (snd entry) S ?r = Some table"
    for schema entry table
  proof -
    from e that have "t_name table \<in> g_createdPivots ?st2" by blast
    with rec2 show ?thesis unfolding ms pivotsRecorded_def by blast
  qed
  moreover have "distinct (pivotTables ms)"
    using rec2 unfolding ms pivotsRecorded_def by blast
  moreover have "ms = ?creates @ ps" using ps(1) c1 ms by simp
  ultimately show ?thesis using srt ps(2) by blast
qed

text \<open>
  C1: on a collection with distinct names whose dependency relation (the
  \<open>ManyToOne\<close> and \<open>OneToOne\<close> associations between its object schemas) is acyclic,
  when a schema owns a foreign key toward another schema of the collection, the returned
  list has the create migration of the referenced schema at an earlier position than
  the create migration of the referencing schema.
\<close>

theorem create_migrations_follow_dependencies:
  assumes keys: "distinct (map fst S)"
    and acyclic: "acyclic (dependencies (objectSchemas S))"
    and run: "generateMigrations S options = Some (Inr ms)"
    and a: "(a, sa) \<in> set S" "s_kind sa \<noteq> Some ''enum''"
    and dep: "b \<in> set (dependencyTargets sa)"
    and b: "(b, sb) \<in> set S" "s_kind sb \<noteq> Some ''enum''"
  shows "\<exists>i j. j < i \<and> i < length ms
           \<and> ms ! j = tableMigration (resolveOptions options)
                        ((increment ^^ j) (r_startVersion (resolveOptions options)))
                        (schemaToTable sb S (resolveOptions options)) create
           \<and> ms ! i = tableMigration (resolveOptions options)
                        ((increment ^^ i) (r_startVersion (resolveOptions options)))
                        (schemaToTable sa S (resolveOptions options)) create"
proof -
  let ?r = "resolveOptions options"
  from generateMigrations_shape [OF run] obtain sortedSchemas ps where
    srt: "topologicalSort (objectSchemas S) = Some sortedSchemas"
    and ms: "ms = map (\<lambda>i. tableMigration ?r ((increment ^^ i) (r_startVersion ?r))
                            (schemaToTable (sortedSchemas ! i) S ?r) create)
                   [0..<length sortedSchemas] @ ps"
    by blast
  have la: "map_of (objectSchemas S) a = Some sa"
    using keys a by (rule objectSchemas_lookup)
  have lb: "map_of (objectSchemas S) b = Some sb"
    using keys b by (rule objectSchemas_lookup)
  from topologicalSort_ordered [OF acyclic srt la dep lb] obtain i j where
    ij: "j < i" "i < length sortedSchemas" "sortedSchemas ! i = sa" "sortedSchemas ! j = sb"
    by blast
  from ij have "ms ! i = tableMigration ?r ((increment ^^ i) (r_startVersion ?r)) (schemaToTable sa S ?r) create"
    unfolding ms by (simp add: nth_append)
  moreover from ij have "ms ! j = tableMigration ?r ((increment ^^ j) (r_startVersion ?r))
                                     (schemaToTable sb S ?r) create"
    unfolding ms by (simp add: nth_append)
  moreover from ij have "i < length ms" unfolding ms by simp
  ultimately show ?thesis using ij(1) by blast
qed

lemma blog_run:
  "\<exists>ms. generateMigrations blogSchemas versionOptions = Some (Inr ms)
        \<and> map m_name ms = [''create_users'', ''create_posts'', ''create_comments'']"
proof -
  have e: "map_option (map_sum id (map m_name)) (generateMigrations blogSchemas versionOptions)
             = Some (Inr [''create_users'', ''create_posts'', ''create_comments''])"
    by code_simp
  show ?thesis
  proof (cases "generateMigrations blogSchemas versionOptions")
    case None
    with e show ?thesis by simp
  next
    case (Some result)
    with e show ?thesis by (cases result) simp_all
  qed
qed

lemma blog_dependencies:
  assumes "(a, b) \<in> dependencies (objectSchemas blogSchemas)"
  shows "(a, b) = (''Comment'', ''Post'') \<or> (a, b) = (''Post'', ''User'')"
proof -
  from assms obtain sa where sa: "map_of (objectSchemas blogSchemas) a = Some sa"
    "b \<in> set (dependencyTargets sa)"
    by (auto simp: dependencies_def)
  have o: "objectSchemas blogSchemas = blogSchemas"
    by (simp add: objectSchemas_def blogSchemas_def blogComment_def blogPost_def blogUser_def
        createSchema_def)
  have t: "dependencyTargets blogComment = [''Post'']" "dependencyTargets blogPost = [''User'']"
    "dependencyTargets blogUser = []"
    by (simp_all add: dependencyTargets_def blogComment_def blogPost_def blogUser_def
        createSchema_def propertiesOf_def association_def newProperty_def)
  from sa(1) have "(a, sa) \<in> set blogSchemas" unfolding o by (rule map_of_SomeD)
  then have "(a, sa) = (''Comment'', blogComment) \<or> (a, sa) = (''Post'', blogPost)
             \<or> (a, sa) = (''User'', blogUser)"
    by (simp add: blogSchemas_def)
  with sa(2) t show ?thesis by auto
qed

lemma blog_acyclic: "acyclic (dependencies (objectSchemas blogSchemas))"
proof (rule acyclicI_order)
  fix a b
  assume "(a, b) \<in> dependencies (objectSchemas blogSchemas)"
  then have "(a, b) = (''Comment'', ''Post'') \<or> (a, b) = (''Post'', ''User'')"
    by (rule blog_dependencies)
  then show "blogRank b < blogRank a"
    by (auto simp: blogRank_def)
qed

theorem create_migrations_follow_dependencies_witness:
  "distinct (map fst blogSchemas)
   \<and> acyclic (dependencies (objectSchemas blogSchemas))
   \<and> (''Comment'', blogComment) \<in> set blogSchemas
   \<and> ''Post'' \<in> set (dependencyTargets blogComment)
   \<and> (''Post'', blogPost) \<in> set blogSchemas
   \<and> (\<exists>ms. generateMigrations blogSchemas versionOptions = Some (Inr ms)
          \<and> map m_name ms = [''create_users'', ''create_posts'', ''create_comments'']
          \<and> (\<exists>i j. j < i \<and> i < length ms
                \<and> ms ! j = tableMigration (resolveOptions versionOptions)
                             ((increment ^^ j) (r_startVersion (resolveOptions versionOptions)))
                             (schemaToTable blogPost blogSchemas (resolveOptions versionOptions))
                             create
                \<and> ms ! i = tableMigration (resolveOptions versionOptions)
                             ((increment ^^ i) (r_startVersion (resolveOptions versionOptions)))
                             (schemaToTable blogComment blogSchemas (resolveOptions versionOptions))
                             create))"
proof -
  have k: "distinct (map fst blogSchemas)" by (simp add: blogSchemas_def)
  have a: "(''Comment'', blogComment) \<in> set blogSchemas" "s_kind blogComment \<noteq> Some ''enum''"
    by (simp_all add: blogSchemas_def blogComment_def createSchema_def)
  have d: "''Post'' \<in> set (dependencyTargets blogComment)"
    by (simp add: dependencyTargets_def blogComment_def createSchema_def propertiesOf_def
        association_def newProperty_def)
  have b: "(''Post'', blogPost) \<in> set blogSchemas" "s_kind blogPost \<noteq> Some ''enum''"
    by (simp_all add: blogSchemas_def blogPost_def createSchema_def)
  from blog_run obtain ms where
    run: "generateMigrations blogSchemas versionOptions = Some (Inr ms)"
    and names: "map m_name ms = [''create_users'', ''create_posts'', ''create_comments'']"
    by (elim exE conjE) (rule that, assumption+)
  have ord: "\<exists>i j. j < i \<and> i < length ms
                \<and> ms ! j = tableMigration (resolveOptions versionOptions)
                             ((increment ^^ j) (r_startVersion (resolveOptions versionOptions)))
                             (schemaToTable blogPost blogSchemas (resolveOptions versionOptions))
                             create
                \<and> ms ! i = tableMigration (resolveOptions versionOptions)
                             ((increment ^^ i) (r_startVersion (resolveOptions versionOptions)))
                             (schemaToTable blogComment blogSchemas (resolveOptions versionOptions))
                             create"
    by (rule create_migrations_follow_dependencies [OF k blog_acyclic run a d b])
  show ?thesis
  proof (intro conjI exI [of _ ms])
    show "distinct (map fst blogSchemas)" by (rule k)
    show "acyclic (dependencies (objectSchemas blogSchemas))" by (rule blog_acyclic)
    show "(''Comment'', blogComment) \<in> set blogSchemas" by (rule a(1))
    show "''Post'' \<in> set (dependencyTargets blogComment)" by (rule d)
    show "(''Post'', blogPost) \<in> set blogSchemas" by (rule b(1))
    show "generateMigrations blogSchemas versionOptions = Some (Inr ms)" by (rule run)
    show "map m_name ms = [''create_users'', ''create_posts'', ''create_comments'']"
      by (rule names)
    show "\<exists>i j. j < i \<and> i < length ms
                \<and> ms ! j = tableMigration (resolveOptions versionOptions)
                             ((increment ^^ j) (r_startVersion (resolveOptions versionOptions)))
                             (schemaToTable blogPost blogSchemas (resolveOptions versionOptions))
                             create
                \<and> ms ! i = tableMigration (resolveOptions versionOptions)
                             ((increment ^^ i) (r_startVersion (resolveOptions versionOptions)))
                             (schemaToTable blogComment blogSchemas (resolveOptions versionOptions))
                             create"
      by (rule ord)
  qed
qed

theorem versions_and_file_names_witness:
  "- (2 ^ 53) \<le> r_startVersion (resolveOptions versionOptions)
   \<and> (\<exists>ms. generateMigrations blogSchemas versionOptions = Some (Inr ms)
          \<and> r_startVersion (resolveOptions versionOptions) + int (length ms) \<le> 2 ^ 53 + 1
          \<and> map m_version ms = [10, 11, 12]
          \<and> map m_fileName ms = [''000010_create_users.sql'', ''000011_create_posts.sql'',
                                 ''000012_create_comments.sql''])"
proof -
  from blog_run obtain ms where
    run: "generateMigrations blogSchemas versionOptions = Some (Inr ms)"
    and names: "map m_name ms = [''create_users'', ''create_posts'', ''create_comments'']"
    by (elim exE conjE) (rule that, assumption+)
  from names obtain m0 m1 m2 where ms: "ms = [m0, m1, m2]"
    "m_name m0 = ''create_users''" "m_name m1 = ''create_posts''" "m_name m2 = ''create_comments''"
    by (auto simp only: map_eq_Cons_conv map_is_Nil_conv)
  have r: "r_startVersion (resolveOptions versionOptions) = 10"
    "r_versionPadding (resolveOptions versionOptions) = 6"
    by (simp_all add: resolveOptions_def versionOptions_def)
  have s: "showInt 10 = ''10''" "showInt 11 = ''11''" "showInt 12 = ''12''"
    by code_simp+
  have lower: "- (2 ^ 53) \<le> r_startVersion (resolveOptions versionOptions)"
    unfolding r by simp
  have upper: "r_startVersion (resolveOptions versionOptions) + int (length ms) \<le> 2 ^ 53 + 1"
    unfolding r ms(1) by simp
  note c = versions_and_file_names [OF run lower upper]
  from c have v: "map m_version ms
             = map (\<lambda>i. r_startVersion (resolveOptions versionOptions) + int i) [0..<length ms]"
    by (rule conjunct1)
  from c have f: "\<forall>m \<in> set ms.
              m_fileName m
                = replicate (r_versionPadding (resolveOptions versionOptions)
                             - length (showInt (m_version m))) CHR ''0''
                  @ showInt (m_version m) @ ''_'' @ m_name m @ ''.sql''"
    by (elim conjE)
  from v have vs: "m_version m0 = 10" "m_version m1 = 11" "m_version m2 = 12"
    unfolding ms r by (simp_all add: upt_rec)
  from f have "m_fileName m0 = ''000010_create_users.sql''"
    "m_fileName m1 = ''000011_create_posts.sql''" "m_fileName m2 = ''000012_create_comments.sql''"
    unfolding ms r by (simp_all add: vs s ms(2-4) eval_nat_numeral)
  with vs have "map m_version ms = [10, 11, 12]"
    "map m_fileName ms = [''000010_create_users.sql'', ''000011_create_posts.sql'',
                           ''000012_create_comments.sql'']"
    unfolding ms(1) by simp_all
  with run lower upper show ?thesis by (intro conjI exI [of _ ms])
qed

section \<open>The pivot table of users and roles\<close>






section \<open>Incompatible schemas are rejected\<close>





end
